theory Spec2Isabelle
  imports Main "HOL-Library.Word"
begin

section \<open>Python values\<close>

text \<open>
  The module \<^verbatim>\<open>0x0B_redis_basic/exercise.py\<close> is a thin layer over a Redis client:
  two decorators (\<^verbatim>\<open>count_calls\<close>, \<^verbatim>\<open>call_history\<close>), the class \<^verbatim>\<open>Cache\<close> and the
  function \<^verbatim>\<open>replay\<close>.

  A Python \<^verbatim>\<open>str\<close> is represented by its UTF-8 encoding, a \<^verbatim>\<open>bytes\<close> object by its
  bytes; both are HOL strings. Under this representation \<^verbatim>\<open>s.encode('utf-8')\<close> is the
  identity and \<^verbatim>\<open>b.decode('utf-8')\<close> is the identity on well-formed UTF-8 and raises
  otherwise. A \<^verbatim>\<open>str\<close> holding a lone surrogate has no UTF-8 encoding and is outside
  the model. A \<^verbatim>\<open>float\<close> enters the module only through \<^verbatim>\<open>repr\<close> (in the client's
  encoder and in \<^verbatim>\<open>str(args)\<close>), so a float payload is carried as the text of its
  \<^verbatim>\<open>repr\<close>. \<^verbatim>\<open>repr\<close> of a \<^verbatim>\<open>str\<close> reads the code points out of the UTF-8 bytes.
\<close>

type_synonym bytes = string

text \<open>The payload type of \<^verbatim>\<open>store\<close>: \<^verbatim>\<open>Union[str, bytes, int, float]\<close>.\<close>

datatype data = DStr string | DBytes bytes | DInt int | DFloat string

text \<open>The values the accessors return: \<^verbatim>\<open>None\<close>, text, bytes or an integer.\<close>

datatype pyval = PNone | PStr string | PBytes bytes | PInt int

datatype error =
    ResponseError
  | TypeError
  | ValueError
  | AttributeError
  | UnicodeDecodeError

subsection \<open>Decimal and hexadecimal text\<close>

definition digit_char :: "nat \<Rightarrow> char" where
  "digit_char d = char_of (48 + d)"

definition hex_char :: "nat \<Rightarrow> char" where
  "hex_char d = (if d < 10 then char_of (48 + d) else char_of (87 + d))"

function show_nat :: "nat \<Rightarrow> string" where
  "show_nat n = (if n < 10 then [digit_char n] else show_nat (n div 10) @ [digit_char (n mod 10)])"
  by pat_completeness auto
termination
  by (relation "measure (\<lambda>n. n)") auto

declare show_nat.simps [simp del]

text \<open>\<^verbatim>\<open>repr\<close> of a Python integer, which is also what Redis writes for a counter.\<close>

definition show_int :: "int \<Rightarrow> string" where
  "show_int i = (if i < 0 then CHR ''-'' # show_nat (nat (- i)) else show_nat (nat i))"

definition is_digit :: "char \<Rightarrow> bool" where
  "is_digit c = (48 \<le> (of_char c :: nat) \<and> (of_char c :: nat) \<le> 57)"

definition digit_val :: "char \<Rightarrow> nat" where
  "digit_val c = of_char c - 48"

definition digits_val :: "string \<Rightarrow> nat" where
  "digits_val s = foldl (\<lambda>a c. 10 * a + digit_val c) 0 s"

subsection \<open>\<^verbatim>\<open>repr\<close> and \<^verbatim>\<open>str\<close>\<close>

text \<open>
  Python writes a string or bytes literal in single quotes unless it holds a single
  quote and no double quote.
\<close>

definition quote_for :: "string \<Rightarrow> char" where
  "quote_for s = (if CHR 0x27 \<in> set s \<and> CHR 0x22 \<notin> set s then CHR 0x22 else CHR 0x27)"

definition hex_escape :: "nat \<Rightarrow> string" where
  "hex_escape n = [CHR 0x5C, CHR ''x'', hex_char (n div 16), hex_char (n mod 16)]"

text \<open>One ASCII character of \<^verbatim>\<open>repr(str)\<close>, inside the quote \<open>q\<close>.\<close>

definition escape_str :: "char \<Rightarrow> char \<Rightarrow> string" where
  "escape_str q c =
     (let n = (of_char c :: nat) in
      if c = q \<or> n = 0x5C then [CHR 0x5C, c]
      else if n = 9 then [CHR 0x5C, CHR ''t'']
      else if n = 10 then [CHR 0x5C, CHR ''n'']
      else if n = 13 then [CHR 0x5C, CHR ''r'']
      else if n < 32 \<or> n = 127 then hex_escape n
      else [c])"

definition escape_bytes :: "char \<Rightarrow> char \<Rightarrow> string" where
  "escape_bytes q c =
     (let n = (of_char c :: nat) in
      if c = q \<or> n = 0x5C then [CHR 0x5C, c]
      else if n = 9 then [CHR 0x5C, CHR ''t'']
      else if n = 10 then [CHR 0x5C, CHR ''n'']
      else if n = 13 then [CHR 0x5C, CHR ''r'']
      else if n < 32 \<or> 127 \<le> n then hex_escape n
      else [c])"

text \<open>
  A character above ASCII is some bytes of the UTF-8 text: a lead byte, which tells how
  many bytes follow, and the bytes that follow, six bits of the code point each.
\<close>

definition trail_count :: "nat \<Rightarrow> nat" where
  "trail_count n =
     (if 0xC0 \<le> n \<and> n < 0xE0 then 1
      else if 0xE0 \<le> n \<and> n < 0xF0 then 2
      else if 0xF0 \<le> n \<and> n < 0xF8 then 3
      else 0)"

definition code_point :: "nat \<Rightarrow> nat list \<Rightarrow> nat" where
  "code_point lead trail = foldl (\<lambda>a b. a * 64 + b mod 64) (lead mod 2 ^ (6 - length trail)) trail"

definition hex_digits :: "nat \<Rightarrow> nat \<Rightarrow> string" where
  "hex_digits width n = map (\<lambda>i. hex_char (n div 16 ^ (width - 1 - i) mod 16)) [0..<width]"

text \<open>The escape of a code point above ASCII that is not printable.\<close>

definition escape_code_point :: "nat \<Rightarrow> string" where
  "escape_code_point cp =
     (if cp < 0x100 then hex_escape cp
      else if cp < 0x10000 then [CHR 0x5C, CHR ''u''] @ hex_digits 4 cp
      else [CHR 0x5C, CHR ''U''] @ hex_digits 8 cp)"

text \<open>
  The characters of \<^verbatim>\<open>repr(str)\<close> between the quotes. An ASCII character is escaped by
  \<open>escape_str\<close>. A character above ASCII is kept when it is printable and escaped by its
  code point when it is not; which code points are printable is a table of the running
  interpreter (\<^verbatim>\<open>str.isprintable\<close>), here the parameter \<open>p\<close>. Bytes that are not well-formed
  UTF-8 stand for no \<^verbatim>\<open>str\<close>; on them the function has no meaning.
\<close>

function repr_text :: "(nat \<Rightarrow> bool) \<Rightarrow> char \<Rightarrow> string \<Rightarrow> string" where
  "repr_text p q [] = []"
| "repr_text p q (c # cs) =
     (if (of_char c :: nat) < 0x80 then escape_str q c @ repr_text p q cs
      else
        (let k = trail_count (of_char c);
             cp = code_point (of_char c) (map of_char (take k cs))
         in (if k = 0 \<or> p cp then c # take k cs else escape_code_point cp)
              @ repr_text p q (drop k cs)))"
  by pat_completeness auto
termination
  by (relation "measure (\<lambda>(p, q, s). length s)") auto

definition py_repr_str :: "(nat \<Rightarrow> bool) \<Rightarrow> string \<Rightarrow> string" where
  "py_repr_str p s = (let q = quote_for s in [q] @ repr_text p q s @ [q])"

definition py_repr_bytes :: "bytes \<Rightarrow> string" where
  "py_repr_bytes b =
     (let q = quote_for b in [CHR ''b'', q] @ concat (map (escape_bytes q) b) @ [q])"

fun py_repr :: "(nat \<Rightarrow> bool) \<Rightarrow> data \<Rightarrow> string" where
  "py_repr p (DStr s) = py_repr_str p s"
| "py_repr p (DBytes b) = py_repr_bytes b"
| "py_repr p (DInt i) = show_int i"
| "py_repr p (DFloat r) = r"

fun join_comma :: "string list \<Rightarrow> string" where
  "join_comma [] = []"
| "join_comma [x] = x"
| "join_comma (x # y # ys) = x @ '', '' @ join_comma (y # ys)"

text \<open>\<^verbatim>\<open>str(args)\<close> for the tuple of positional arguments, under the table \<open>p\<close>.\<close>

definition py_str_tuple :: "(nat \<Rightarrow> bool) \<Rightarrow> data list \<Rightarrow> string" where
  "py_str_tuple p args =
     (case args of
        [a] \<Rightarrow> ''('' @ py_repr p a @ '',)''
      | _ \<Rightarrow> ''('' @ join_comma (map (py_repr p) args) @ '')'')"

text \<open>\<^verbatim>\<open>str(result)\<close>.\<close>

fun py_str :: "pyval \<Rightarrow> string" where
  "py_str PNone = ''None''"
| "py_str (PStr s) = s"
| "py_str (PBytes b) = py_repr_bytes b"
| "py_str (PInt i) = show_int i"

text \<open>Truthiness, as the conditional expressions of \<^verbatim>\<open>get_str\<close> and \<^verbatim>\<open>get_int\<close> test it.\<close>

fun truthy :: "pyval \<Rightarrow> bool" where
  "truthy PNone = False"
| "truthy (PStr s) = (s \<noteq> [])"
| "truthy (PBytes b) = (b \<noteq> [])"
| "truthy (PInt i) = (i \<noteq> 0)"

subsection \<open>Conversions\<close>

text \<open>
  Strict UTF-8: shortest forms only, no surrogates, nothing above U+10FFFF. The function
  reads the byte values.
\<close>

definition cont_byte :: "nat \<Rightarrow> bool" where
  "cont_byte b = (0x80 \<le> b \<and> b \<le> 0xBF)"

fun utf8_ok :: "nat list \<Rightarrow> bool" where
  "utf8_ok [] = True"
| "utf8_ok [b0] = (b0 < 0x80)"
| "utf8_ok [b0, b1] =
     (if b0 < 0x80 then utf8_ok [b1] else 0xC2 \<le> b0 \<and> b0 \<le> 0xDF \<and> cont_byte b1)"
| "utf8_ok [b0, b1, b2] =
     (if b0 < 0x80 then utf8_ok [b1, b2]
      else if 0xC2 \<le> b0 \<and> b0 \<le> 0xDF then cont_byte b1 \<and> utf8_ok [b2]
      else 0xE0 \<le> b0 \<and> b0 \<le> 0xEF \<and> cont_byte b1 \<and> cont_byte b2
        \<and> (if b0 = 0xE0 then 0xA0 \<le> b1 else True) \<and> (if b0 = 0xED then b1 \<le> 0x9F else True))"
| "utf8_ok (b0 # b1 # b2 # b3 # bs) =
     (if b0 < 0x80 then utf8_ok (b1 # b2 # b3 # bs)
      else if 0xC2 \<le> b0 \<and> b0 \<le> 0xDF then cont_byte b1 \<and> utf8_ok (b2 # b3 # bs)
      else if 0xE0 \<le> b0 \<and> b0 \<le> 0xEF then
        cont_byte b1 \<and> cont_byte b2
        \<and> (if b0 = 0xE0 then 0xA0 \<le> b1 else True) \<and> (if b0 = 0xED then b1 \<le> 0x9F else True)
        \<and> utf8_ok (b3 # bs)
      else 0xF0 \<le> b0 \<and> b0 \<le> 0xF4 \<and> cont_byte b1 \<and> cont_byte b2 \<and> cont_byte b3
        \<and> (if b0 = 0xF0 then 0x90 \<le> b1 else True) \<and> (if b0 = 0xF4 then b1 \<le> 0x8F else True)
        \<and> utf8_ok bs)"

definition utf8_valid :: "bytes \<Rightarrow> bool" where
  "utf8_valid b = utf8_ok (map of_char b)"

text \<open>\<^verbatim>\<open>value.decode("utf-8")\<close>: only bytes have the method.\<close>

fun py_decode :: "pyval \<Rightarrow> error + pyval" where
  "py_decode (PBytes b) = (if utf8_valid b then Inr (PStr b) else Inl UnicodeDecodeError)"
| "py_decode v = Inl AttributeError"

text \<open>
  \<^verbatim>\<open>int(value)\<close> in base 10: surrounding white space is dropped, a sign may lead, and
  single underscores may stand between digits.
\<close>

definition is_space :: "char \<Rightarrow> bool" where
  "is_space c = ((of_char c :: nat) \<in> {9, 10, 11, 12, 13, 32})"

fun digits_us :: "bool \<Rightarrow> string \<Rightarrow> nat \<Rightarrow> nat option" where
  "digits_us prev [] acc = (if prev then Some acc else None)"
| "digits_us prev (c # cs) acc =
     (if is_digit c then digits_us True cs (10 * acc + digit_val c)
      else if c = CHR ''_'' \<and> prev then digits_us False cs acc
      else None)"

definition py_int_text :: "string \<Rightarrow> error + pyval" where
  "py_int_text s =
     (let t = rev (dropWhile is_space (rev (dropWhile is_space s))) in
      case t of
        [] \<Rightarrow> Inl ValueError
      | c # cs \<Rightarrow>
          (if c = CHR ''-'' then
             (case digits_us False cs 0 of
                None \<Rightarrow> Inl ValueError | Some n \<Rightarrow> Inr (PInt (- int n)))
           else
             (case digits_us False (if c = CHR ''+'' then cs else t) 0 of
                None \<Rightarrow> Inl ValueError | Some n \<Rightarrow> Inr (PInt (int n)))))"

fun py_int :: "pyval \<Rightarrow> error + pyval" where
  "py_int PNone = Inl TypeError"
| "py_int (PInt i) = Inr (PInt i)"
| "py_int (PBytes b) = py_int_text b"
| "py_int (PStr s) = py_int_text s"

section \<open>The Redis server and its client\<close>

text \<open>
  The database maps a key to a string value or to a list. Both kinds of value are held
  as bytes, and a key that holds an empty list does not exist. The server's resource
  limits (memory, the 64-bit range of \<^verbatim>\<open>INCR\<close>, the longest list) are not modelled.
\<close>

datatype rvalue = RString bytes | RList "bytes list"

datatype command =
    FLUSHDB
  | SET bytes bytes
  | GET bytes
  | INCR bytes
  | RPUSH bytes bytes
  | LRANGE bytes int int

type_synonym uuid = "128 word"

text \<open>
  The world the module runs in: the database, the commands the client has sent to it
  (oldest first), the values \<^verbatim>\<open>uuid.uuid4()\<close> is going to return and how many of them
  have been drawn, the lines printed so far, and the interpreter's table of the printable
  code points above ASCII, which \<^verbatim>\<open>repr\<close> reads.
\<close>

record world =
  db :: "bytes \<rightharpoonup> rvalue"
  log :: "command list"
  uuid_source :: "nat \<Rightarrow> uuid"
  uuid_drawn :: nat
  stdout :: "string list"
  unicode_printable :: "nat \<Rightarrow> bool"

text \<open>
  A computation returns a value or raises; either way it leaves a world behind, so what
  was written before an exception stays written. \<open>do_lift\<close> runs a pure step that may
  raise, \<open>do_bind\<close> is sequencing: an exception of the first part skips the second.
\<close>

type_synonym 'a prog = "world \<Rightarrow> (error + 'a) \<times> world"

definition do_return :: "'a \<Rightarrow> 'a prog" where
  "do_return x w = (Inr x, w)"

definition do_raise :: "error \<Rightarrow> 'a prog" where
  "do_raise e w = (Inl e, w)"

definition do_lift :: "error + 'a \<Rightarrow> 'a prog" where
  "do_lift r w = (r, w)"

definition do_bind :: "'a prog \<Rightarrow> ('a \<Rightarrow> 'b prog) \<Rightarrow> 'b prog" where
  "do_bind m f w = (case m w of (Inl e, w') \<Rightarrow> (Inl e, w') | (Inr x, w') \<Rightarrow> f x w')"

definition issue :: "command \<Rightarrow> world \<Rightarrow> world" where
  "issue c w = w\<lparr>log := log w @ [c]\<rparr>"

text \<open>The client's encoder: bytes as they are, text in UTF-8, numbers by \<^verbatim>\<open>repr\<close>.\<close>

fun encode :: "data \<Rightarrow> bytes" where
  "encode (DBytes b) = b"
| "encode (DInt i) = show_int i"
| "encode (DFloat r) = r"
| "encode (DStr s) = s"

text \<open>
  What the server accepts as an integer: an optional minus sign and decimal digits, with
  no leading zero, no plus sign and no space.
\<close>

definition parse_ll :: "bytes \<Rightarrow> int option" where
  "parse_ll b =
     (case b of
        [] \<Rightarrow> None
      | c # cs \<Rightarrow>
          (if c = CHR ''-'' then
             (case cs of
                [] \<Rightarrow> None
              | d # ds \<Rightarrow>
                  (if is_digit d \<and> d \<noteq> CHR ''0'' \<and> list_all is_digit ds
                   then Some (- int (digits_val cs)) else None))
           else if b = ''0'' then Some 0
           else if is_digit c \<and> c \<noteq> CHR ''0'' \<and> list_all is_digit cs
           then Some (int (digits_val b)) else None))"

definition redis_flushdb :: "bool prog" where
  "redis_flushdb w = (Inr True, (issue FLUSHDB w)\<lparr>db := Map.empty\<rparr>)"

definition redis_set :: "string \<Rightarrow> data \<Rightarrow> bool prog" where
  "redis_set key val w =
     (Inr True, (issue (SET key (encode val)) w)\<lparr>db := (db w)(key \<mapsto> RString (encode val))\<rparr>)"

definition redis_get :: "string \<Rightarrow> pyval prog" where
  "redis_get key w =
     (case db w key of
        None \<Rightarrow> (Inr PNone, issue (GET key) w)
      | Some (RString b) \<Rightarrow> (Inr (PBytes b), issue (GET key) w)
      | Some (RList xs) \<Rightarrow> (Inl ResponseError, issue (GET key) w))"

definition redis_incr :: "string \<Rightarrow> int prog" where
  "redis_incr name w =
     (case db w name of
        None \<Rightarrow> (Inr 1, (issue (INCR name) w)\<lparr>db := (db w)(name \<mapsto> RString (show_int 1))\<rparr>)
      | Some (RString b) \<Rightarrow>
          (case parse_ll b of
             None \<Rightarrow> (Inl ResponseError, issue (INCR name) w)
           | Some n \<Rightarrow>
               (Inr (n + 1),
                (issue (INCR name) w)\<lparr>db := (db w)(name \<mapsto> RString (show_int (n + 1)))\<rparr>))
      | Some (RList xs) \<Rightarrow> (Inl ResponseError, issue (INCR name) w))"

definition redis_rpush :: "string \<Rightarrow> string \<Rightarrow> int prog" where
  "redis_rpush key val w =
     (case db w key of
        None \<Rightarrow> (Inr 1, (issue (RPUSH key val) w)\<lparr>db := (db w)(key \<mapsto> RList [val])\<rparr>)
      | Some (RList xs) \<Rightarrow>
          (Inr (int (length xs) + 1),
           (issue (RPUSH key val) w)\<lparr>db := (db w)(key \<mapsto> RList (xs @ [val]))\<rparr>)
      | Some (RString b) \<Rightarrow> (Inl ResponseError, issue (RPUSH key val) w))"

text \<open>The elements from \<open>start\<close> to \<open>stop\<close>, both included; a negative index counts from the end.\<close>

definition lrange_slice :: "'a list \<Rightarrow> int \<Rightarrow> int \<Rightarrow> 'a list" where
  "lrange_slice xs start stop =
     (let n = int (length xs);
          s = (if start < 0 then max (n + start) 0 else start);
          e = (if stop < 0 then n + stop else min stop (n - 1))
      in if e < s then [] else take (nat (e - s + 1)) (drop (nat s) xs))"

definition redis_lrange :: "string \<Rightarrow> int \<Rightarrow> int \<Rightarrow> bytes list prog" where
  "redis_lrange key start stop w =
     (case db w key of
        None \<Rightarrow> (Inr [], issue (LRANGE key start stop) w)
      | Some (RList xs) \<Rightarrow> (Inr (lrange_slice xs start stop), issue (LRANGE key start stop) w)
      | Some (RString b) \<Rightarrow> (Inl ResponseError, issue (LRANGE key start stop) w))"

subsection \<open>\<^verbatim>\<open>uuid.uuid4()\<close>, \<^verbatim>\<open>str(UUID)\<close> and \<^verbatim>\<open>print\<close>\<close>

definition uuid4 :: "uuid prog" where
  "uuid4 w = (Inr (uuid_source w (uuid_drawn w)), w\<lparr>uuid_drawn := Suc (uuid_drawn w)\<rparr>)"

text \<open>The \<open>i\<close>-th of the 32 hexadecimal digits of \<^verbatim>\<open>'%032x' % u.int\<close>, from the left.\<close>

definition nibble :: "uuid \<Rightarrow> nat \<Rightarrow> nat" where
  "nibble u i = unat (take_bit 4 (drop_bit (4 * (31 - i)) u))"

definition uuid_hex :: "uuid \<Rightarrow> string" where
  "uuid_hex u = map (\<lambda>i. hex_char (nibble u i)) [0..<32]"

definition uuid_str :: "uuid \<Rightarrow> string" where
  "uuid_str u =
     (let h = uuid_hex u in
      take 8 h @ ''-'' @ take 4 (drop 8 h) @ ''-'' @ take 4 (drop 12 h) @ ''-''
        @ take 4 (drop 16 h) @ ''-'' @ drop 20 h)"

text \<open>\<^verbatim>\<open>str(args)\<close> as the running interpreter computes it.\<close>

definition str_args :: "data list \<Rightarrow> string prog" where
  "str_args args w = (Inr (py_str_tuple (unicode_printable w) args), w)"

definition print :: "string \<Rightarrow> unit prog" where
  "print line w = (Inr (), w\<lparr>stdout := stdout w @ [line]\<rparr>)"

section \<open>The module\<close>

text \<open>
  A method is called with \<^verbatim>\<open>*args\<close> and \<^verbatim>\<open>**kwargs\<close> and carries its \<^verbatim>\<open>__qualname__\<close>.
  \<^verbatim>\<open>functools.wraps\<close> gives a wrapper the qualified name of the method it wraps.
\<close>

type_synonym kwargs = "(string \<times> data) list"

record pymethod =
  qualname :: string
  call :: "data list \<Rightarrow> kwargs \<Rightarrow> pyval prog"

definition count_calls :: "pymethod \<Rightarrow> pymethod" where
  "count_calls m =
     \<lparr>qualname = qualname m,
      call = (\<lambda>args kwargs.
        do_bind (redis_incr (qualname m)) (\<lambda>_.
        call m args kwargs))\<rparr>"

definition call_history :: "pymethod \<Rightarrow> pymethod" where
  "call_history m =
     \<lparr>qualname = qualname m,
      call = (\<lambda>args kwargs.
        let input_key = qualname m @ '':inputs'';
            output_key = qualname m @ '':outputs''
        in
        do_bind (str_args args) (\<lambda>inputs.
        do_bind (redis_rpush input_key inputs) (\<lambda>_.
        do_bind (call m args kwargs) (\<lambda>result.
        do_bind (redis_rpush output_key (py_str result)) (\<lambda>_.
        do_return result)))))\<rparr>"

text \<open>\<^verbatim>\<open>Cache.__init__\<close>: a client for the default database, which is then flushed.\<close>

definition Cache_init :: "unit prog" where
  "Cache_init = do_bind redis_flushdb (\<lambda>_. do_return ())"

text \<open>
  How a call binds the one parameter \<^verbatim>\<open>data\<close> of \<^verbatim>\<open>store\<close>: positionally or by name;
  any other shape of call is a \<^verbatim>\<open>TypeError\<close>.
\<close>

definition bind_data :: "data list \<Rightarrow> kwargs \<Rightarrow> data option" where
  "bind_data args kwargs =
     (case (args, kwargs) of
        ([d], []) \<Rightarrow> Some d
      | ([], [(k, d)]) \<Rightarrow> (if k = ''data'' then Some d else None)
      | _ \<Rightarrow> None)"

text \<open>The body of \<^verbatim>\<open>Cache.store\<close>, before decoration.\<close>

definition store_body :: "data \<Rightarrow> pyval prog" where
  "store_body data =
     do_bind uuid4 (\<lambda>u.
     let key = uuid_str u in
     do_bind (redis_set key data) (\<lambda>_.
     do_return (PStr key)))"

definition store_raw :: pymethod where
  "store_raw =
     \<lparr>qualname = ''Cache.store'',
      call = (\<lambda>args kwargs.
        case bind_data args kwargs of
          None \<Rightarrow> do_raise TypeError
        | Some data \<Rightarrow> store_body data)\<rparr>"

text \<open>\<^verbatim>\<open>@call_history\<close> over \<^verbatim>\<open>@count_calls\<close> over the body.\<close>

definition store :: pymethod where
  "store = call_history (count_calls store_raw)"

text \<open>
  \<^verbatim>\<open>Cache.get\<close>. The converter \<^verbatim>\<open>fn\<close> defaults to \<^verbatim>\<open>None\<close>; a converter that is given is a
  function, which is truthy, so \<^verbatim>\<open>if fn\<close> tests whether one was given.
\<close>

definition get :: "string \<Rightarrow> (pyval \<Rightarrow> error + pyval) option \<Rightarrow> pyval prog" where
  "get key fn =
     do_bind (redis_get key) (\<lambda>val.
     case fn of
       Some f \<Rightarrow> do_lift (f val)
     | None \<Rightarrow> do_return val)"

definition get_str :: "string \<Rightarrow> pyval prog" where
  "get_str key =
     do_bind (get key None) (\<lambda>val.
     if truthy val then do_lift (py_decode val) else do_return val)"

definition get_int :: "string \<Rightarrow> pyval prog" where
  "get_int key =
     do_bind (get key None) (\<lambda>val.
     if truthy val then do_lift (py_int val) else do_return val)"

text \<open>
  The loop of \<^verbatim>\<open>replay\<close> over \<^verbatim>\<open>zip(inputs, outputs)\<close>. Python's \<^verbatim>\<open>eval\<close> is a parameter,
  together with \<^verbatim>\<open>str\<close> on the values it returns.
\<close>

fun replay_loop ::
  "(string \<Rightarrow> error + 'v) \<Rightarrow> ('v \<Rightarrow> string) \<Rightarrow> string \<Rightarrow> (bytes \<times> bytes) list \<Rightarrow> unit prog"
where
  "replay_loop eval str_of method_name [] = do_return ()"
| "replay_loop eval str_of method_name ((inp, out) # rest) =
     do_bind (do_lift (py_decode (PBytes inp))) (\<lambda>inp_text.
     do_bind (do_lift (eval (py_str inp_text))) (\<lambda>inp_tuple.
     do_bind (do_lift (py_decode (PBytes out))) (\<lambda>out_str.
     do_bind (print (method_name @ ''(*'' @ str_of inp_tuple @ '') -> '' @ py_str out_str)) (\<lambda>_.
     replay_loop eval str_of method_name rest))))"

definition replay :: "(string \<Rightarrow> error + 'v) \<Rightarrow> ('v \<Rightarrow> string) \<Rightarrow> pymethod \<Rightarrow> unit prog" where
  "replay eval str_of m =
     do_bind Cache_init (\<lambda>cache.
     let method_name = qualname m in
     do_bind (redis_lrange (method_name @ '':inputs'') 0 (- 1)) (\<lambda>inputs.
     do_bind (redis_lrange (method_name @ '':outputs'') 0 (- 1)) (\<lambda>outputs.
     do_bind (print (method_name @ '' was called '' @ show_nat (length inputs) @ '' times:'')) (\<lambda>_.
     replay_loop eval str_of method_name (zip inputs outputs)))))"

section \<open>Observations and runs\<close>

text \<open>The number \<^verbatim>\<open>INCR\<close> finds under a key: an absent key counts as 0.\<close>

definition counter_of :: "world \<Rightarrow> string \<Rightarrow> int option" where
  "counter_of w name =
     (case db w name of
        None \<Rightarrow> Some 0
      | Some (RString b) \<Rightarrow> parse_ll b
      | Some (RList xs) \<Rightarrow> None)"

text \<open>The list \<^verbatim>\<open>RPUSH\<close> and \<^verbatim>\<open>LRANGE\<close> find under a key: an absent key is the empty list.\<close>

definition list_of :: "world \<Rightarrow> string \<Rightarrow> bytes list option" where
  "list_of w key =
     (case db w key of
        None \<Rightarrow> Some []
      | Some (RList xs) \<Rightarrow> Some xs
      | Some (RString b) \<Rightarrow> None)"

text \<open>
  The three keys of the instrumentation of \<^verbatim>\<open>Cache.store\<close> hold values of their kinds
  (or nothing yet), as they do after a flush and after every call of \<^verbatim>\<open>store\<close>.
\<close>

definition store_ready :: "world \<Rightarrow> bool" where
  "store_ready w =
     (counter_of w ''Cache.store'' \<noteq> None
      \<and> list_of w ''Cache.store:inputs'' \<noteq> None
      \<and> list_of w ''Cache.store:outputs'' \<noteq> None)"

text \<open>
  A caller that invokes a method once per element of a list of calls, in order, and
  keeps what each invocation returned or raised.
\<close>

fun run_calls :: "pymethod \<Rightarrow> (data list \<times> kwargs) list \<Rightarrow> world \<Rightarrow> (error + pyval) list \<times> world" where
  "run_calls m [] w = ([], w)"
| "run_calls m (c # cs) w =
     (case call m (fst c) (snd c) w of
        (r, w1) \<Rightarrow> (case run_calls m cs w1 of (rs, w2) \<Rightarrow> (r # rs, w2)))"

text \<open>The call \<^verbatim>\<open>store(d)\<close>: one positional argument, no keyword.\<close>

definition positional :: "data \<Rightarrow> data list \<times> kwargs" where
  "positional d = ([d], [])"

text \<open>What the next \<open>n\<close> calls of \<^verbatim>\<open>uuid.uuid4()\<close> return, and the keys \<^verbatim>\<open>str\<close> makes of them.\<close>

definition next_uuids :: "world \<Rightarrow> nat \<Rightarrow> uuid list" where
  "next_uuids w n = map (\<lambda>i. uuid_source w (uuid_drawn w + i)) [0..<n]"

definition next_keys :: "world \<Rightarrow> nat \<Rightarrow> string list" where
  "next_keys w n = map uuid_str (next_uuids w n)"

text \<open>The printable code points from U+0080 to U+00FF.\<close>

definition latin1_printable :: "nat \<Rightarrow> bool" where
  "latin1_printable cp = (0xA1 \<le> cp \<and> cp \<le> 0xFF \<and> cp \<noteq> 0xAD)"

text \<open>
  A world to run examples in: nothing stored, nothing printed, UUIDs 0, 1, 2, ..., and an
  interpreter whose table stops at U+00FF.
\<close>

definition world0 :: world where
  "world0 =
     \<lparr>db = Map.empty, log = [], uuid_source = (\<lambda>n. of_nat n), uuid_drawn = 0, stdout = [],
      unicode_printable = latin1_printable\<rparr>"


text \<open>An invocation that binds the parameter \<^verbatim>\<open>data\<close>, so that the body runs.\<close>

definition binds :: "data list \<times> kwargs \<Rightarrow> bool" where
  "binds c = (bind_data (fst c) (snd c) \<noteq> None)"

text \<open>
  An operation that raises whenever it is called, under the name of \<^verbatim>\<open>store\<close>: an example
  of a decorated operation that fails.
\<close>

definition always_raises :: pymethod where
  "always_raises = \<lparr>qualname = ''Cache.store'', call = (\<lambda>args kwargs. do_raise ValueError)\<rparr>"

section \<open>Lemmas\<close>

subsection \<open>Decimal text\<close>

lemma char_of_48: "char_of (48::nat) = CHR ''0''"
  by code_simp

lemma of_char_digit_char: "d < 10 \<Longrightarrow> (of_char (digit_char d) :: nat) = 48 + d"
  by (simp add: digit_char_def)

lemma is_digit_digit_char: "d < 10 \<Longrightarrow> is_digit (digit_char d)"
  by (simp add: is_digit_def of_char_digit_char)

lemma digit_val_digit_char: "d < 10 \<Longrightarrow> digit_val (digit_char d) = d"
  by (simp add: digit_val_def of_char_digit_char)

lemma digit_char_zero: "d < 10 \<Longrightarrow> (digit_char d = CHR ''0'') = (d = 0)"
proof
  assume "d < 10" "digit_char d = CHR ''0''"
  then have "(of_char (digit_char d) :: nat) = of_char CHR ''0''" by simp
  with \<open>d < 10\<close> show "d = 0" by (simp add: of_char_digit_char)
next
  assume "d = 0" then show "digit_char d = CHR ''0''" by (simp add: digit_char_def char_of_48)
qed

lemma show_nat_not_Nil: "show_nat n \<noteq> []"
  by (subst show_nat.simps) simp

lemma show_nat_digits: "list_all is_digit (show_nat n)"
proof (induction n rule: show_nat.induct)
  case (1 n)
  show ?case
  proof (cases "n < 10")
    case True
    then show ?thesis by (subst show_nat.simps) (simp add: is_digit_digit_char)
  next
    case False
    with 1 show ?thesis by (subst show_nat.simps) (simp add: is_digit_digit_char)
  qed
qed

lemma digits_val_snoc: "digits_val (s @ [c]) = 10 * digits_val s + digit_val c"
  by (simp add: digits_val_def)

lemma digits_val_show_nat: "digits_val (show_nat n) = n"
proof (induction n rule: show_nat.induct)
  case (1 n)
  show ?case
  proof (cases "n < 10")
    case True
    then show ?thesis
      by (subst show_nat.simps) (simp add: digits_val_def digit_val_digit_char)
  next
    case False
    with 1 show ?thesis
      by (subst show_nat.simps) (simp add: digits_val_snoc digit_val_digit_char)
  qed
qed

lemma hd_show_nat: "0 < n \<Longrightarrow> hd (show_nat n) \<noteq> CHR ''0''"
proof (induction n rule: show_nat.induct)
  case (1 n)
  show ?case
  proof (cases "n < 10")
    case True
    with 1(2) show ?thesis by (subst show_nat.simps) (simp add: digit_char_zero)
  next
    case False
    then have "0 < n div 10" by simp
    with 1(1) False have "hd (show_nat (n div 10)) \<noteq> CHR ''0''" by simp
    with False show ?thesis
      by (subst show_nat.simps) (simp add: show_nat_not_Nil)
  qed
qed

lemma parse_ll_show_nat_pos:
  assumes "0 < n"
  shows "parse_ll (show_nat n) = Some (int n)"
proof -
  obtain c cs where s: "show_nat n = c # cs"
    using show_nat_not_Nil [of n] by (cases "show_nat n") auto
  have d: "is_digit c" "list_all is_digit cs"
    using show_nat_digits [of n] by (simp_all add: s)
  have z: "c \<noteq> CHR ''0''" using hd_show_nat [OF assms] by (simp add: s)
  have m: "c \<noteq> CHR ''-''" using d(1) by (auto simp: is_digit_def)
  have v: "digits_val (c # cs) = n" using digits_val_show_nat [of n] by (simp add: s)
  show ?thesis using d z m v by (simp add: parse_ll_def s)
qed

lemma show_nat_0: "show_nat 0 = ''0''"
  by (subst show_nat.simps) (simp add: digit_char_def char_of_48)

lemma parse_ll_show_int: "parse_ll (show_int i) = Some i"
proof -
  consider "i < 0" | "i = 0" | "0 < i" by linarith
  then show ?thesis
  proof cases
    case 1
    define n where "n = nat (- i)"
    have n: "0 < n" "i = - int n" using 1 by (simp_all add: n_def)
    obtain c cs where s: "show_nat n = c # cs"
      using show_nat_not_Nil [of n] by (cases "show_nat n") auto
    have d: "is_digit c" "list_all is_digit cs"
      using show_nat_digits [of n] by (simp_all add: s)
    have z: "c \<noteq> CHR ''0''" using hd_show_nat [OF n(1)] by (simp add: s)
    have v: "digits_val (c # cs) = n" using digits_val_show_nat [of n] by (simp add: s)
    have "show_int i = CHR ''-'' # c # cs" using 1 by (simp add: show_int_def n_def [symmetric] s)
    then show ?thesis using d z v n by (simp add: parse_ll_def)
  next
    case 2
    then show ?thesis by (simp add: show_int_def show_nat_0 parse_ll_def)
  next
    case 3
    then have "parse_ll (show_nat (nat i)) = Some (int (nat i))"
      by (intro parse_ll_show_nat_pos) simp
    with 3 show ?thesis by (simp add: show_int_def)
  qed
qed

subsection \<open>Keys made of UUIDs\<close>

lemma length_uuid_hex: "length (uuid_hex u) = 32"
  by (simp add: uuid_hex_def)

lemma length_uuid_str: "length (uuid_str u) = 36"
  by (simp add: uuid_str_def Let_def length_uuid_hex)

lemma uuid_str_not_short: "length s \<noteq> 36 \<Longrightarrow> uuid_str u \<noteq> s \<and> s \<noteq> uuid_str u"
  using length_uuid_str [of u] by auto

lemma uuid_str_not_name:
  "uuid_str u \<noteq> ''Cache.store''"
  "uuid_str u \<noteq> ''Cache.store:inputs''"
  "uuid_str u \<noteq> ''Cache.store:outputs''"
  "''Cache.store'' \<noteq> uuid_str u"
  "''Cache.store:inputs'' \<noteq> uuid_str u"
  "''Cache.store:outputs'' \<noteq> uuid_str u"
  using uuid_str_not_short [of "''Cache.store''" u]
    uuid_str_not_short [of "''Cache.store:inputs''" u]
    uuid_str_not_short [of "''Cache.store:outputs''" u]
  by simp_all









subsection \<open>Single commands\<close>

lemma issue_simps [simp]:
  "db (issue c w) = db w"
  "log (issue c w) = log w @ [c]"
  "uuid_source (issue c w) = uuid_source w"
  "uuid_drawn (issue c w) = uuid_drawn w"
  "stdout (issue c w) = stdout w"
  "unicode_printable (issue c w) = unicode_printable w"
  by (simp_all add: issue_def)

lemma redis_rpush_list:
  "list_of w key = Some xs \<Longrightarrow>
   redis_rpush key v w =
     (Inr (int (length xs) + 1), (issue (RPUSH key v) w)\<lparr>db := (db w)(key \<mapsto> RList (xs @ [v]))\<rparr>)"
  by (auto simp: redis_rpush_def list_of_def split: option.splits rvalue.splits)

lemma redis_incr_counter:
  "counter_of w name = Some n \<Longrightarrow>
   redis_incr name w =
     (Inr (n + 1), (issue (INCR name) w)\<lparr>db := (db w)(name \<mapsto> RString (show_int (n + 1)))\<rparr>)"
  by (auto simp: redis_incr_def counter_of_def split: option.splits rvalue.splits)

lemma lrange_slice_Nil: "lrange_slice [] start stop = []"
  by (simp add: lrange_slice_def Let_def)

lemma redis_lrange_list:
  "list_of w key = Some xs \<Longrightarrow>
   redis_lrange key start stop w = (Inr (lrange_slice xs start stop), issue (LRANGE key start stop) w)"
  by (auto simp: redis_lrange_def list_of_def lrange_slice_Nil split: option.splits rvalue.splits)

lemma lrange_slice_all: "lrange_slice xs 0 (- 1) = xs"
  by (simp add: lrange_slice_def Let_def)

subsection \<open>A call through the two decorators\<close>

lemma store_names [simp]:
  "qualname store = ''Cache.store''"
  "qualname store_raw = ''Cache.store''"
  "qualname (count_calls m) = qualname m"
  "qualname (call_history m) = qualname m"
  by (simp_all add: store_def call_history_def count_calls_def store_raw_def)

lemma call_count_calls:
  "call (count_calls m) args kwargs =
     do_bind (redis_incr (qualname m)) (\<lambda>_. call m args kwargs)"
  by (simp add: count_calls_def)

lemma call_call_history:
  "call (call_history m) args kwargs w =
     do_bind (redis_rpush (qualname m @ '':inputs'') (py_str_tuple (unicode_printable w) args)) (\<lambda>_.
     do_bind (call m args kwargs) (\<lambda>result.
     do_bind (redis_rpush (qualname m @ '':outputs'') (py_str result)) (\<lambda>_.
     do_return result))) w"
  by (simp add: call_history_def str_args_def do_bind_def)

lemma store_body_eq:
  "store_body d w =
     (Inr (PStr (uuid_str (uuid_source w (uuid_drawn w)))),
      (issue (SET (uuid_str (uuid_source w (uuid_drawn w))) (encode d)) w)
        \<lparr>db := (db w)(uuid_str (uuid_source w (uuid_drawn w)) \<mapsto> RString (encode d)),
         uuid_drawn := Suc (uuid_drawn w)\<rparr>)"
  by (simp add: store_body_def do_bind_def do_lift_def uuid4_def redis_set_def do_return_def Let_def issue_def)

text \<open>The world a call of the decorated method leaves when it got as far as the body.\<close>

lemma decorated_call:
  assumes c: "counter_of w (qualname m) = Some n"
    and i: "list_of w (qualname m @ '':inputs'') = Some ins"
  shows "call (call_history (count_calls m)) args kwargs w =
     (case call m args kwargs
        ((issue (INCR (qualname m)) (issue (RPUSH (qualname m @ '':inputs'') (py_str_tuple (unicode_printable w) args)) w))
           \<lparr>db := (db w)(qualname m @ '':inputs'' \<mapsto> RList (ins @ [py_str_tuple (unicode_printable w) args]),
                          qualname m \<mapsto> RString (show_int (n + 1)))\<rparr>) of
        (Inl e, w3) \<Rightarrow> (Inl e, w3)
      | (Inr result, w3) \<Rightarrow>
          (case redis_rpush (qualname m @ '':outputs'') (py_str result) w3 of
             (Inl e, w4) \<Rightarrow> (Inl e, w4)
           | (Inr l, w4) \<Rightarrow> (Inr result, w4)))"
proof -
  let ?ik = "qualname m @ '':inputs''"
  let ?w1 = "(issue (RPUSH ?ik (py_str_tuple (unicode_printable w) args)) w)\<lparr>db := (db w)(?ik \<mapsto> RList (ins @ [py_str_tuple (unicode_printable w) args]))\<rparr>"
  have r1: "redis_rpush ?ik (py_str_tuple (unicode_printable w) args) w = (Inr (int (length ins) + 1), ?w1)"
    using i by (rule redis_rpush_list)
  have "counter_of ?w1 (qualname m) = Some n"
    using c by (simp add: counter_of_def issue_def)
  then have r2: "redis_incr (qualname m) ?w1 =
      (Inr (n + 1), (issue (INCR (qualname m)) ?w1)\<lparr>db := (db ?w1)(qualname m \<mapsto> RString (show_int (n + 1)))\<rparr>)"
    by (rule redis_incr_counter)
  have "call (call_history (count_calls m)) args kwargs w =
     (case call m args kwargs
        ((issue (INCR (qualname m)) ?w1)\<lparr>db := (db ?w1)(qualname m \<mapsto> RString (show_int (n + 1)))\<rparr>) of
        (Inl e, w3) \<Rightarrow> (Inl e, w3)
      | (Inr result, w3) \<Rightarrow>
          (case redis_rpush (qualname m @ '':outputs'') (py_str result) w3 of
             (Inl e, w4) \<Rightarrow> (Inl e, w4)
           | (Inr l, w4) \<Rightarrow> (Inr result, w4)))"
    by (simp only: call_call_history call_count_calls do_bind_def do_lift_def store_names r1 r2
        prod.case sum.case do_return_def)
  then show ?thesis
    by (simp add: issue_def)
qed

subsection \<open>A call of the decorated store\<close>

lemma call_store_raw:
  "call store_raw args kwargs =
     (case bind_data args kwargs of None \<Rightarrow> do_raise TypeError | Some d \<Rightarrow> store_body d)"
  by (simp add: store_raw_def)

lemma store_returns:
  assumes c: "counter_of w ''Cache.store'' = Some n"
    and i: "list_of w ''Cache.store:inputs'' = Some ins"
    and out: "list_of w ''Cache.store:outputs'' = Some outs"
    and b: "bind_data args kwargs = Some d"
  shows "call store args kwargs w =
     (Inr (PStr (uuid_str (uuid_source w (uuid_drawn w)))),
      w\<lparr>db := (db w)
           (''Cache.store:inputs'' \<mapsto> RList (ins @ [py_str_tuple (unicode_printable w) args]),
            ''Cache.store'' \<mapsto> RString (show_int (n + 1)),
            uuid_str (uuid_source w (uuid_drawn w)) \<mapsto> RString (encode d),
            ''Cache.store:outputs'' \<mapsto> RList (outs @ [uuid_str (uuid_source w (uuid_drawn w))])),
        log := log w @
           [RPUSH ''Cache.store:inputs'' (py_str_tuple (unicode_printable w) args),
            INCR ''Cache.store'',
            SET (uuid_str (uuid_source w (uuid_drawn w))) (encode d),
            RPUSH ''Cache.store:outputs'' (uuid_str (uuid_source w (uuid_drawn w)))],
        uuid_drawn := Suc (uuid_drawn w)\<rparr>)"
proof -
  let ?k = "uuid_str (uuid_source w (uuid_drawn w))"
  let ?w2 = "w\<lparr>log := log w @ [RPUSH ''Cache.store:inputs'' (py_str_tuple (unicode_printable w) args), INCR ''Cache.store''],
       db := (db w)(''Cache.store:inputs'' \<mapsto> RList (ins @ [py_str_tuple (unicode_printable w) args]),
                    ''Cache.store'' \<mapsto> RString (show_int (n + 1)))\<rparr>"
  let ?w3 = "(issue (SET ?k (encode d)) ?w2)\<lparr>db := (db ?w2)(?k \<mapsto> RString (encode d)),
       uuid_drawn := Suc (uuid_drawn w)\<rparr>"
  have body: "call store_raw args kwargs ?w2 = (Inr (PStr ?k), ?w3)"
    by (simp add: call_store_raw b store_body_eq)
  have "list_of ?w3 ''Cache.store:outputs'' = Some outs"
    using out by (simp add: list_of_def uuid_str_not_name)
  then have push: "redis_rpush ''Cache.store:outputs'' ?k ?w3 =
      (Inr (int (length outs) + 1),
       (issue (RPUSH ''Cache.store:outputs'' ?k) ?w3)\<lparr>db := (db ?w3)(''Cache.store:outputs'' \<mapsto> RList (outs @ [?k]))\<rparr>)"
    by (rule redis_rpush_list)
  have dc: "call store args kwargs w =
      (case call store_raw args kwargs ?w2 of
         (Inl e, w3) \<Rightarrow> (Inl e, w3)
       | (Inr result, w3) \<Rightarrow>
           (case redis_rpush ''Cache.store:outputs'' (py_str result) w3 of
              (Inl e, w4) \<Rightarrow> (Inl e, w4)
            | (Inr l, w4) \<Rightarrow> (Inr result, w4)))"
    using decorated_call [of w store_raw n ins args kwargs, unfolded store_names append.simps] c i
    by (simp add: store_def issue_def)
  have "call store args kwargs w =
      (Inr (PStr ?k),
       (issue (RPUSH ''Cache.store:outputs'' ?k) ?w3)\<lparr>db := (db ?w3)(''Cache.store:outputs'' \<mapsto> RList (outs @ [?k]))\<rparr>)"
    by (simp only: dc body push prod.case sum.case py_str.simps)
  then show ?thesis
    by (simp add: issue_def)
qed

lemma store_raises:
  assumes c: "counter_of w ''Cache.store'' = Some n"
    and i: "list_of w ''Cache.store:inputs'' = Some ins"
    and b: "bind_data args kwargs = None"
  shows "call store args kwargs w =
     (Inl TypeError,
      w\<lparr>db := (db w)
           (''Cache.store:inputs'' \<mapsto> RList (ins @ [py_str_tuple (unicode_printable w) args]),
            ''Cache.store'' \<mapsto> RString (show_int (n + 1))),
        log := log w @ [RPUSH ''Cache.store:inputs'' (py_str_tuple (unicode_printable w) args), INCR ''Cache.store'']\<rparr>)"
  using decorated_call [of w store_raw n ins args kwargs] c i
  by (simp add: store_def call_store_raw b do_raise_def issue_def)

subsection \<open>Sequences of calls\<close>

lemma store_step:
  assumes c: "counter_of w ''Cache.store'' = Some n"
    and i: "list_of w ''Cache.store:inputs'' = Some ins"
    and out: "list_of w ''Cache.store:outputs'' = Some outs"
  shows "counter_of (snd (call store args kwargs w)) ''Cache.store'' = Some (n + 1)"
    and "list_of (snd (call store args kwargs w)) ''Cache.store:inputs'' = Some (ins @ [py_str_tuple (unicode_printable w) args])"
    and "list_of (snd (call store args kwargs w)) ''Cache.store:outputs'' \<noteq> None"
proof -
  show "counter_of (snd (call store args kwargs w)) ''Cache.store'' = Some (n + 1)"
  proof (cases "bind_data args kwargs")
    case None
    show ?thesis
      by (simp add: store_raises [OF c i None] counter_of_def parse_ll_show_int)
  next
    case (Some d)
    show ?thesis
      by (simp add: store_returns [OF c i out Some] counter_of_def parse_ll_show_int uuid_str_not_name)
  qed
  show "list_of (snd (call store args kwargs w)) ''Cache.store:inputs'' = Some (ins @ [py_str_tuple (unicode_printable w) args])"
  proof (cases "bind_data args kwargs")
    case None
    show ?thesis
      by (simp add: store_raises [OF c i None] list_of_def)
  next
    case (Some d)
    show ?thesis
      by (simp add: store_returns [OF c i out Some] list_of_def uuid_str_not_name)
  qed
  show "list_of (snd (call store args kwargs w)) ''Cache.store:outputs'' \<noteq> None"
  proof (cases "bind_data args kwargs")
    case None
    show ?thesis
      using out by (simp add: store_raises [OF c i None] list_of_def)
  next
    case (Some d)
    show ?thesis
      by (simp add: store_returns [OF c i out Some] list_of_def)
  qed
qed

lemma run_calls_counter:
  assumes "counter_of w ''Cache.store'' = Some n"
    and "list_of w ''Cache.store:inputs'' \<noteq> None"
    and "list_of w ''Cache.store:outputs'' \<noteq> None"
  shows "counter_of (snd (run_calls store cs w)) ''Cache.store'' = Some (n + int (length cs))"
  using assms
proof (induction cs arbitrary: w n)
  case Nil
  then show ?case by simp
next
  case (Cons c cs)
  from Cons.prems obtain ins outs where
    i: "list_of w ''Cache.store:inputs'' = Some ins" and
    out: "list_of w ''Cache.store:outputs'' = Some outs"
    by auto
  let ?w1 = "snd (call store (fst c) (snd c) w)"
  have "counter_of (snd (run_calls store cs ?w1)) ''Cache.store'' = Some (n + 1 + int (length cs))"
    using store_step [OF Cons.prems(1) i out, of "fst c" "snd c"]
    by (intro Cons.IH) simp_all
  then show ?case
    by (simp add: split_beta)
qed

lemma flushed:
  "db (snd (Cache_init w)) = Map.empty"
  "log (snd (Cache_init w)) = log w @ [FLUSHDB]"
  "uuid_source (snd (Cache_init w)) = uuid_source w"
  "uuid_drawn (snd (Cache_init w)) = uuid_drawn w"
  "stdout (snd (Cache_init w)) = stdout w"
  "unicode_printable (snd (Cache_init w)) = unicode_printable w"
  "fst (Cache_init w) = Inr ()"
  by (simp_all add: Cache_init_def redis_flushdb_def do_bind_def do_lift_def do_return_def)

lemma flushed_obs:
  "counter_of (snd (Cache_init w)) name = Some 0"
  "list_of (snd (Cache_init w)) key = Some []"
  by (simp_all add: counter_of_def list_of_def flushed)

lemma next_keys_Suc:
  assumes "uuid_source w1 = uuid_source w" and "uuid_drawn w1 = Suc (uuid_drawn w)"
  shows "next_keys w (Suc n) = uuid_str (uuid_source w (uuid_drawn w)) # next_keys w1 n"
proof -
  have "[0..<Suc n] = 0 # [Suc 0..<Suc n]"
    by (rule upt_conv_Cons) simp
  then have "[0..<Suc n] = 0 # map Suc [0..<n]"
    by (simp only: map_Suc_upt)
  then show ?thesis
    by (simp add: next_keys_def next_uuids_def assms comp_def del: upt_Suc)
qed

lemma run_binding:
  assumes "counter_of w ''Cache.store'' = Some n"
    and "list_of w ''Cache.store:inputs'' = Some ins"
    and "list_of w ''Cache.store:outputs'' = Some outs"
    and "list_all binds cs"
  shows "fst (run_calls store cs w) = map (\<lambda>k. Inr (PStr k)) (next_keys w (length cs))
    \<and> list_of (snd (run_calls store cs w)) ''Cache.store:inputs''
        = Some (ins @ map (\<lambda>c. py_str_tuple (unicode_printable w) (fst c)) cs)
    \<and> list_of (snd (run_calls store cs w)) ''Cache.store:outputs''
        = Some (outs @ next_keys w (length cs))"
  using assms
proof (induction cs arbitrary: w n ins outs)
  case Nil
  then show ?case by (simp add: next_keys_def next_uuids_def)
next
  case (Cons c cs)
  let ?k = "uuid_str (uuid_source w (uuid_drawn w))"
  from Cons.prems(4) obtain d where b: "bind_data (fst c) (snd c) = Some d"
    by (auto simp: binds_def)
  from Cons.prems(4) have rest: "list_all binds cs" by simp
  note r = store_returns [OF Cons.prems(1-3) b]
  let ?w1 = "snd (call store (fst c) (snd c) w)"
  have c1: "counter_of ?w1 ''Cache.store'' = Some (n + 1)"
    and i1: "list_of ?w1 ''Cache.store:inputs''
      = Some (ins @ [py_str_tuple (unicode_printable w) (fst c)])"
    using store_step(1,2) [OF Cons.prems(1-3)] by simp_all
  have o1: "list_of ?w1 ''Cache.store:outputs'' = Some (outs @ [?k])"
    by (simp add: r list_of_def)
  have u: "uuid_source ?w1 = uuid_source w" "uuid_drawn ?w1 = Suc (uuid_drawn w)"
    by (simp_all add: r)
  have t: "unicode_printable ?w1 = unicode_printable w"
    by (simp add: r)
  have f: "fst (call store (fst c) (snd c) w) = Inr (PStr ?k)"
    by (simp add: r)
  note ih = Cons.IH [OF c1 i1 o1 rest]
  show ?case
    using ih f by (simp add: split_beta next_keys_Suc [OF u] t del: upt_Suc)
qed

lemma run_stores:
  assumes "counter_of w ''Cache.store'' = Some n"
    and "list_of w ''Cache.store:inputs'' = Some ins"
    and "list_of w ''Cache.store:outputs'' = Some outs"
  shows "fst (run_calls store (map positional ds) w) = map (\<lambda>k. Inr (PStr k)) (next_keys w (length ds))
    \<and> list_of (snd (run_calls store (map positional ds) w)) ''Cache.store:inputs''
        = Some (ins @ map (\<lambda>d. py_str_tuple (unicode_printable w) [d]) ds)
    \<and> list_of (snd (run_calls store (map positional ds) w)) ''Cache.store:outputs''
        = Some (outs @ next_keys w (length ds))"
proof -
  have v: "list_all binds (map positional ds)"
    by (induction ds) (simp_all add: binds_def positional_def bind_data_def)
  have m: "map (\<lambda>c. py_str_tuple (unicode_printable w) (fst c)) (map positional ds)
      = map (\<lambda>d. py_str_tuple (unicode_printable w) [d]) ds"
    by (simp add: positional_def comp_def)
  show ?thesis
    using run_binding [OF assms v] by (simp only: m length_map)
qed

subsection \<open>Reading a key; the example world\<close>

lemma store_ready_obs:
  assumes "store_ready w"
  obtains n ins outs where "counter_of w ''Cache.store'' = Some n"
    and "list_of w ''Cache.store:inputs'' = Some ins"
    and "list_of w ''Cache.store:outputs'' = Some outs"
  using assms by (auto simp: store_ready_def)

lemma store_ready_flushed: "store_ready (snd (Cache_init w))"
  by (simp add: store_ready_def flushed_obs)

lemma get_present:
  "db w key = Some (RString b) \<Longrightarrow> get key fn w =
     ((case fn of None \<Rightarrow> Inr (PBytes b) | Some f \<Rightarrow> f (PBytes b)), issue (GET key) w)"
  by (simp add: get_def do_bind_def do_lift_def redis_get_def do_return_def split: option.splits)

lemma get_absent:
  "db w key = None \<Longrightarrow> get key fn w =
     ((case fn of None \<Rightarrow> Inr PNone | Some f \<Rightarrow> f PNone), issue (GET key) w)"
  by (simp add: get_def do_bind_def do_lift_def redis_get_def do_return_def split: option.splits)

lemma uuid_str_0: "uuid_str 0 = ''00000000-0000-0000-0000-000000000000''"
  by code_simp

lemma uuid_str_1: "uuid_str 1 = ''00000000-0000-0000-0000-000000000001''"
  by code_simp

lemma uuid_str_2: "uuid_str 2 = ''00000000-0000-0000-0000-000000000002''"
  by code_simp

lemma world0_simps [simp]:
  "db world0 = Map.empty"
  "log world0 = []"
  "uuid_source world0 n = of_nat n"
  "uuid_drawn world0 = 0"
  "stdout world0 = []"
  "unicode_printable world0 = latin1_printable"
  by (simp_all add: world0_def)

subsection \<open>Replay and the history after a flush\<close>

lemma replay_store:
  "replay eval str_of store w =
     (Inr (),
      w\<lparr>db := Map.empty,
        log := log w @ [FLUSHDB, LRANGE ''Cache.store:inputs'' 0 (- 1), LRANGE ''Cache.store:outputs'' 0 (- 1)],
        stdout := stdout w @ [''Cache.store was called 0 times:'']\<rparr>)"
  by (simp add: replay_def Cache_init_def redis_flushdb_def do_bind_def do_lift_def do_return_def
      redis_lrange_def print_def show_nat_0 issue_def Let_def)

lemma stores_after_flush:
  "fst (run_calls store (map positional ds) (snd (Cache_init w)))
      = map (\<lambda>k. Inr (PStr k)) (next_keys w (length ds))"
  "fst (redis_lrange ''Cache.store:inputs'' 0 (- 1)
        (snd (run_calls store (map positional ds) (snd (Cache_init w)))))
      = Inr (map (\<lambda>d. py_str_tuple (unicode_printable w) [d]) ds)"
  "fst (redis_lrange ''Cache.store:outputs'' 0 (- 1)
        (snd (run_calls store (map positional ds) (snd (Cache_init w)))))
      = Inr (next_keys w (length ds))"
proof -
  let ?w0 = "snd (Cache_init w)"
  let ?w1 = "snd (run_calls store (map positional ds) ?w0)"
  have k: "next_keys ?w0 (length ds) = next_keys w (length ds)"
    by (simp add: next_keys_def next_uuids_def flushed)
  note r = run_stores [of ?w0 0 "[]" "[]" ds, OF flushed_obs(1) flushed_obs(2) flushed_obs(2)]
  from r show "fst (run_calls store (map positional ds) ?w0)
      = map (\<lambda>k. Inr (PStr k)) (next_keys w (length ds))"
    by (simp add: k)
  from r have i: "list_of ?w1 ''Cache.store:inputs'' = Some (map (\<lambda>d. py_str_tuple (unicode_printable w) [d]) ds)"
    and out: "list_of ?w1 ''Cache.store:outputs'' = Some (next_keys w (length ds))"
    by (simp_all add: k flushed)
  show "fst (redis_lrange ''Cache.store:inputs'' 0 (- 1) ?w1) = Inr (map (\<lambda>d. py_str_tuple (unicode_printable w) [d]) ds)"
    by (simp add: redis_lrange_list [OF i] lrange_slice_all)
  show "fst (redis_lrange ''Cache.store:outputs'' 0 (- 1) ?w1) = Inr (next_keys w (length ds))"
    by (simp add: redis_lrange_list [OF out] lrange_slice_all)
qed

lemma py_str_tuple_examples:
  "py_str_tuple p [] = ''()''"
  "py_str_tuple p [DStr ''a''] = ''('' @ [CHR 0x27] @ ''a'' @ [CHR 0x27] @ '',)''"
  "py_str_tuple p [DStr ''b''] = ''('' @ [CHR 0x27] @ ''b'' @ [CHR 0x27] @ '',)''"
  "py_str_tuple p [DStr ''c''] = ''('' @ [CHR 0x27] @ ''c'' @ [CHR 0x27] @ '',)''"
  by (simp_all add: py_str_tuple_def py_repr_str_def quote_for_def escape_str_def Let_def)

lemma py_str_tuple_nbsp:
  "py_str_tuple latin1_printable [DStr [CHR 0xC2, CHR 0xA0]]
     = ''('' @ [CHR 0x27, CHR 0x5C] @ ''xa0'' @ [CHR 0x27] @ '',)''"
  by code_simp

lemma calls_after_flush:
  assumes "list_all binds cs"
  shows "fst (run_calls store cs (snd (Cache_init w)))
      = map (\<lambda>k. Inr (PStr k)) (next_keys w (length cs))"
    and "fst (redis_lrange ''Cache.store:inputs'' 0 (- 1)
        (snd (run_calls store cs (snd (Cache_init w)))))
      = Inr (map (\<lambda>c. py_str_tuple (unicode_printable w) (fst c)) cs)"
    and "fst (redis_lrange ''Cache.store:outputs'' 0 (- 1)
        (snd (run_calls store cs (snd (Cache_init w)))))
      = Inr (next_keys w (length cs))"
proof -
  let ?w0 = "snd (Cache_init w)"
  let ?w1 = "snd (run_calls store cs ?w0)"
  have k: "next_keys ?w0 (length cs) = next_keys w (length cs)"
    by (simp add: next_keys_def next_uuids_def flushed)
  note r = run_binding [of ?w0 0 "[]" "[]" cs, OF flushed_obs(1) flushed_obs(2) flushed_obs(2) assms]
  from r show "fst (run_calls store cs ?w0) = map (\<lambda>k. Inr (PStr k)) (next_keys w (length cs))"
    by (simp add: k)
  from r have i: "list_of ?w1 ''Cache.store:inputs''
      = Some (map (\<lambda>c. py_str_tuple (unicode_printable w) (fst c)) cs)"
    and out: "list_of ?w1 ''Cache.store:outputs'' = Some (next_keys w (length cs))"
    by (simp_all add: k flushed)
  show "fst (redis_lrange ''Cache.store:inputs'' 0 (- 1) ?w1)
      = Inr (map (\<lambda>c. py_str_tuple (unicode_printable w) (fst c)) cs)"
    by (simp add: redis_lrange_list [OF i] lrange_slice_all)
  show "fst (redis_lrange ''Cache.store:outputs'' 0 (- 1) ?w1) = Inr (next_keys w (length cs))"
    by (simp add: redis_lrange_list [OF out] lrange_slice_all)
qed

subsection \<open>Where the payloads are\<close>







subsection \<open>The counter in the database\<close>

lemma store_step_db:
  assumes c: "counter_of w ''Cache.store'' = Some n"
    and i: "list_of w ''Cache.store:inputs'' = Some ins"
    and out: "list_of w ''Cache.store:outputs'' = Some outs"
  shows "db (snd (call store args kwargs w)) ''Cache.store'' = Some (RString (show_int (n + 1)))"
proof (cases "bind_data args kwargs")
  case None
  show ?thesis
    by (simp add: store_raises [OF c i None])
next
  case (Some d)
  show ?thesis
    by (simp add: store_returns [OF c i out Some] uuid_str_not_name)
qed

lemma run_calls_counter_db:
  assumes "counter_of w ''Cache.store'' = Some n"
    and "list_of w ''Cache.store:inputs'' \<noteq> None"
    and "list_of w ''Cache.store:outputs'' \<noteq> None"
    and "cs \<noteq> []"
  shows "db (snd (run_calls store cs w)) ''Cache.store''
     = Some (RString (show_int (n + int (length cs))))"
  using assms
proof (induction cs arbitrary: w n)
  case Nil
  then show ?case by simp
next
  case (Cons c cs)
  from Cons.prems obtain ins outs where
    i: "list_of w ''Cache.store:inputs'' = Some ins" and
    out: "list_of w ''Cache.store:outputs'' = Some outs"
    by auto
  let ?w1 = "snd (call store (fst c) (snd c) w)"
  note s = store_step [OF Cons.prems(1) i out, of "fst c" "snd c"]
  have r: "snd (run_calls store (c # cs) w) = snd (run_calls store cs ?w1)"
    by (simp add: split_beta)
  show ?case
  proof (cases "cs = []")
    case True
    then show ?thesis
      using store_step_db [OF Cons.prems(1) i out, of "fst c" "snd c"] by (simp add: split_beta)
  next
    case False
    have "db (snd (run_calls store cs ?w1)) ''Cache.store''
        = Some (RString (show_int (n + 1 + int (length cs))))"
      using s False by (intro Cons.IH) simp_all
    then have "db (snd (run_calls store (c # cs) w)) ''Cache.store''
        = Some (RString (show_int (n + 1 + int (length cs))))"
      by (simp only: r)
    moreover have "n + 1 + int (length cs) = n + int (length (c # cs))"
      by simp
    ultimately show ?thesis
      by (simp only:)
  qed
qed

section \<open>The claims\<close>

text \<open>
  C1. For every payload \<open>v\<close> (text, bytes, integer or float), \<^verbatim>\<open>store(v)\<close> returns a key and
  \<^verbatim>\<open>get\<close> on that key, with no converter, returns the bytes the client's encoder makes of
  \<open>v\<close>. This holds in every world in which the three keys of the instrumentation hold
  values of their kinds, and there \<^verbatim>\<open>store\<close> does return.
\<close>

theorem get_after_store:
  assumes "store_ready w"
  shows "fst (call store [v] [] w) = Inr (PStr (uuid_str (uuid_source w (uuid_drawn w))))
    \<and> fst (get (uuid_str (uuid_source w (uuid_drawn w))) None (snd (call store [v] [] w)))
        = Inr (PBytes (encode v))"
proof -
  from assms obtain n ins outs where
    c: "counter_of w ''Cache.store'' = Some n" and
    i: "list_of w ''Cache.store:inputs'' = Some ins" and
    out: "list_of w ''Cache.store:outputs'' = Some outs"
    by (rule store_ready_obs)
  have b: "bind_data [v] [] = Some v" by (simp add: bind_data_def)
  note r = store_returns [OF c i out b]
  have "db (snd (call store [v] [] w)) (uuid_str (uuid_source w (uuid_drawn w))) = Some (RString (encode v))"
    by (simp add: r uuid_str_not_name)
  then show ?thesis
    by (simp add: get_present) (simp add: r)
qed

theorem get_after_store_witness:
  "store_ready (snd (Cache_init world0))
   \<and> fst (call store [DInt 42] [] (snd (Cache_init world0)))
       = Inr (PStr ''00000000-0000-0000-0000-000000000000'')
   \<and> fst (get ''00000000-0000-0000-0000-000000000000'' None
         (snd (call store [DInt 42] [] (snd (Cache_init world0)))))
       = Inr (PBytes ''42'')"
proof -
  have h: "store_ready (snd (Cache_init world0))" by (rule store_ready_flushed)
  have e: "show_int 42 = ''42''" by code_simp
  show ?thesis
    using h get_after_store [OF h, of "DInt 42"] by (simp add: flushed uuid_str_0 e)
qed

text \<open>
  C2. After a flush and any sequence of invocations of \<^verbatim>\<open>store\<close>, whatever their arguments
  and whether or not they return, the counter under the qualified name \<^verbatim>\<open>Cache.store\<close>
  equals the number of invocations: the key is absent before the first one and holds the
  decimal text of the number afterwards.
\<close>

theorem counter_counts_calls:
  "qualname store = ''Cache.store''
   \<and> counter_of (snd (run_calls store cs (snd (Cache_init w)))) ''Cache.store''
       = Some (int (length cs))
   \<and> db (snd (run_calls store cs (snd (Cache_init w)))) ''Cache.store''
       = (if cs = [] then None else Some (RString (show_int (int (length cs)))))"
proof -
  have c: "counter_of (snd (run_calls store cs (snd (Cache_init w)))) ''Cache.store''
       = Some (int (length cs))"
    using run_calls_counter [of "snd (Cache_init w)" 0 cs] by (simp add: flushed_obs)
  have d: "db (snd (run_calls store cs (snd (Cache_init w)))) ''Cache.store''
       = Some (RString (show_int (int (length cs))))" if "cs \<noteq> []"
    using run_calls_counter_db [of "snd (Cache_init w)" 0 cs] that by (simp add: flushed_obs)
  have e: "db (snd (run_calls store [] (snd (Cache_init w)))) ''Cache.store'' = None"
    by (simp add: flushed)
  show ?thesis
    using c d e by (cases "cs = []") simp_all
qed

text \<open>
  C3, as stated, fails: an invocation that raises has recorded its input and records no
  output. After \<^verbatim>\<open>Cache()\<close> and the one invocation \<^verbatim>\<open>store()\<close>, which raises \<^verbatim>\<open>TypeError\<close>,
  the inputs list holds one entry and the outputs list none.
\<close>

theorem raising_call_records_no_output:
  "fst (run_calls store [([], [])] (snd (Cache_init world0))) = [Inl TypeError]
   \<and> fst (redis_lrange ''Cache.store:inputs'' 0 (- 1)
        (snd (run_calls store [([], [])] (snd (Cache_init world0))))) = Inr [''()'']
   \<and> fst (redis_lrange ''Cache.store:outputs'' 0 (- 1)
        (snd (run_calls store [([], [])] (snd (Cache_init world0))))) = Inr []
   \<and> length [''()''] \<noteq> length ([] :: bytes list)"
proof -
  let ?w = "snd (Cache_init world0)"
  have b: "bind_data [] [] = None" by (simp add: bind_data_def)
  note r = store_raises [OF flushed_obs(1) flushed_obs(2) b, of world0]
  have w: "run_calls store [([], [])] ?w = ([Inl TypeError], snd (call store [] [] ?w))"
    by (simp add: r)
  have i: "list_of (snd (call store [] [] ?w)) ''Cache.store:inputs'' = Some [''()'']"
    by (simp add: r list_of_def py_str_tuple_examples)
  have out: "list_of (snd (call store [] [] ?w)) ''Cache.store:outputs'' = Some []"
    by (simp add: r list_of_def flushed)
  show ?thesis
    by (simp only: w fst_conv snd_conv redis_lrange_list [OF i] redis_lrange_list [OF out]
        lrange_slice_all lrange_slice_Nil) simp
qed

text \<open>
  C3, amended. After a flush and any sequence of invocations of \<^verbatim>\<open>store\<close> that bind the
  payload, positionally or by keyword (these are the invocations that return), every
  invocation has returned its key, the inputs list read by \<^verbatim>\<open>LRANGE 0 -1\<close> is the list of
  \<^verbatim>\<open>str(args)\<close> of the invocations in call order, the outputs list is the list of \<^verbatim>\<open>str\<close> of
  the returned keys in call order, and each has as many entries as there were
  invocations.
\<close>

theorem history_in_call_order:
  assumes "list_all binds cs"
  shows "fst (run_calls store cs (snd (Cache_init w)))
      = map (\<lambda>k. Inr (PStr k)) (next_keys w (length cs))
   \<and> fst (redis_lrange ''Cache.store:inputs'' 0 (- 1)
        (snd (run_calls store cs (snd (Cache_init w)))))
      = Inr (map (\<lambda>c. py_str_tuple (unicode_printable w) (fst c)) cs)
   \<and> fst (redis_lrange ''Cache.store:outputs'' 0 (- 1)
        (snd (run_calls store cs (snd (Cache_init w)))))
      = Inr (map py_str (map PStr (next_keys w (length cs))))
   \<and> length (map (\<lambda>c. py_str_tuple (unicode_printable w) (fst c)) cs) = length cs
   \<and> length (map py_str (map PStr (next_keys w (length cs)))) = length cs"
proof -
  have m: "map py_str (map PStr ks) = ks" for ks by (induction ks) simp_all
  have n: "length (next_keys w (length cs)) = length cs"
    by (simp add: next_keys_def next_uuids_def)
  show ?thesis
    using n by (simp only: calls_after_flush [OF assms] m length_map simp_thms)
qed

theorem history_in_call_order_witness:
  "list_all binds [([DStr ''a''], []), ([], [(''data'', DStr ''b'')]), ([DStr [CHR 0xC2, CHR 0xA0]], [])]
   \<and> fst (run_calls store
        [([DStr ''a''], []), ([], [(''data'', DStr ''b'')]), ([DStr [CHR 0xC2, CHR 0xA0]], [])]
        (snd (Cache_init world0)))
      = [Inr (PStr ''00000000-0000-0000-0000-000000000000''),
         Inr (PStr ''00000000-0000-0000-0000-000000000001''),
         Inr (PStr ''00000000-0000-0000-0000-000000000002'')]
   \<and> fst (redis_lrange ''Cache.store:inputs'' 0 (- 1)
        (snd (run_calls store
          [([DStr ''a''], []), ([], [(''data'', DStr ''b'')]), ([DStr [CHR 0xC2, CHR 0xA0]], [])]
          (snd (Cache_init world0)))))
      = Inr [''('' @ [CHR 0x27] @ ''a'' @ [CHR 0x27] @ '',)'',
             ''()'',
             ''('' @ [CHR 0x27, CHR 0x5C] @ ''xa0'' @ [CHR 0x27] @ '',)'']
   \<and> fst (redis_lrange ''Cache.store:outputs'' 0 (- 1)
        (snd (run_calls store
          [([DStr ''a''], []), ([], [(''data'', DStr ''b'')]), ([DStr [CHR 0xC2, CHR 0xA0]], [])]
          (snd (Cache_init world0)))))
      = Inr [''00000000-0000-0000-0000-000000000000'',
             ''00000000-0000-0000-0000-000000000001'',
             ''00000000-0000-0000-0000-000000000002'']"
proof -
  let ?cs = "[([DStr ''a''], []), ([], [(''data'', DStr ''b'')]), ([DStr [CHR 0xC2, CHR 0xA0]], [])]"
  let ?ks = "[''00000000-0000-0000-0000-000000000000'',
              ''00000000-0000-0000-0000-000000000001'',
              ''00000000-0000-0000-0000-000000000002'']"
  have h: "list_all binds ?cs"
    by (simp add: binds_def bind_data_def)
  have l: "length ?cs = 3" by simp
  have k: "next_keys world0 3 = ?ks"
    by (simp add: next_keys_def next_uuids_def upt_rec uuid_str_0 uuid_str_1 uuid_str_2)
  have t: "map (\<lambda>c. py_str_tuple (unicode_printable world0) (fst c)) ?cs
      = [''('' @ [CHR 0x27] @ ''a'' @ [CHR 0x27] @ '',)'',
         ''()'',
         ''('' @ [CHR 0x27, CHR 0x5C] @ ''xa0'' @ [CHR 0x27] @ '',)'']"
    by (simp add: py_str_tuple_examples py_str_tuple_nbsp)
  have m: "map py_str (map PStr ?ks) = ?ks"
    by simp
  note r = history_in_call_order [OF h, of world0, unfolded l k t m]
  show ?thesis
    using h r by (simp only: list.map)
qed

text \<open>
  C4 (the code does otherwise). After \<^verbatim>\<open>Cache()\<close> and the calls \<^verbatim>\<open>store("a")\<close>,
  \<^verbatim>\<open>store("b")\<close>, \<^verbatim>\<open>store("c")\<close> the two history lists hold three entries each, yet
  \<^verbatim>\<open>replay(cache.store)\<close> prints the one line \<^verbatim>\<open>Cache.store was called 0 times:\<close> and
  no line for any call, whatever \<^verbatim>\<open>eval\<close> does: it builds a new \<^verbatim>\<open>Cache\<close>, whose constructor
  flushes the database before the lists are read.
\<close>

theorem replay_after_three_stores:
  "fst (redis_lrange ''Cache.store:inputs'' 0 (- 1)
      (snd (run_calls store (map positional [DStr ''a'', DStr ''b'', DStr ''c'']) (snd (Cache_init w)))))
     = Inr [''('' @ [CHR 0x27] @ ''a'' @ [CHR 0x27] @ '',)'',
            ''('' @ [CHR 0x27] @ ''b'' @ [CHR 0x27] @ '',)'',
            ''('' @ [CHR 0x27] @ ''c'' @ [CHR 0x27] @ '',)'']
   \<and> fst (redis_lrange ''Cache.store:outputs'' 0 (- 1)
      (snd (run_calls store (map positional [DStr ''a'', DStr ''b'', DStr ''c'']) (snd (Cache_init w)))))
     = Inr (next_keys w 3)
   \<and> fst (replay eval str_of store
      (snd (run_calls store (map positional [DStr ''a'', DStr ''b'', DStr ''c'']) (snd (Cache_init w)))))
     = Inr ()
   \<and> stdout (snd (replay eval str_of store
      (snd (run_calls store (map positional [DStr ''a'', DStr ''b'', DStr ''c'']) (snd (Cache_init w))))))
     = stdout (snd (run_calls store (map positional [DStr ''a'', DStr ''b'', DStr ''c'']) (snd (Cache_init w))))
        @ [''Cache.store was called 0 times:'']"
proof -
  have l: "length [DStr ''a'', DStr ''b'', DStr ''c''] = 3" by simp
  have t: "map (\<lambda>d. py_str_tuple (unicode_printable w) [d]) [DStr ''a'', DStr ''b'', DStr ''c''] =
      [''('' @ [CHR 0x27] @ ''a'' @ [CHR 0x27] @ '',)'',
       ''('' @ [CHR 0x27] @ ''b'' @ [CHR 0x27] @ '',)'',
       ''('' @ [CHR 0x27] @ ''c'' @ [CHR 0x27] @ '',)'']"
    by (simp only: list.map py_str_tuple_examples)
  note s = stores_after_flush(2,3) [of "[DStr ''a'', DStr ''b'', DStr ''c'']" w, unfolded l t]
  have p: "fst (replay eval str_of store x) = Inr ()"
    "stdout (snd (replay eval str_of store x)) = stdout x @ [''Cache.store was called 0 times:'']"
    for x by (simp_all add: replay_store)
  show ?thesis
    by (simp only: s p simp_thms)
qed

text \<open>
  C5, as stated, fails: after \<^verbatim>\<open>store(0)\<close> the raw value under the returned key is
  \<^verbatim>\<open>b'0'\<close>, which is not falsy, and \<^verbatim>\<open>get_int\<close> returns the integer 0 and \<^verbatim>\<open>get_str\<close> the
  text \<^verbatim>\<open>'0'\<close>, neither of them the raw value.
\<close>

theorem zero_is_converted:
  "fst (get ''00000000-0000-0000-0000-000000000000'' None
        (snd (call store [DInt 0] [] (snd (Cache_init world0))))) = Inr (PBytes ''0'')
   \<and> fst (get_int ''00000000-0000-0000-0000-000000000000''
        (snd (call store [DInt 0] [] (snd (Cache_init world0))))) = Inr (PInt 0)
   \<and> fst (get_str ''00000000-0000-0000-0000-000000000000''
        (snd (call store [DInt 0] [] (snd (Cache_init world0))))) = Inr (PStr ''0'')
   \<and> fst (call store [DInt 0] [] (snd (Cache_init world0)))
        = Inr (PStr ''00000000-0000-0000-0000-000000000000'')
   \<and> fst (get_int ''00000000-0000-0000-0000-000000000000''
        (snd (call store [DInt 0] [] (snd (Cache_init world0)))))
      \<noteq> fst (get ''00000000-0000-0000-0000-000000000000'' None
        (snd (call store [DInt 0] [] (snd (Cache_init world0)))))
   \<and> fst (get_str ''00000000-0000-0000-0000-000000000000''
        (snd (call store [DInt 0] [] (snd (Cache_init world0)))))
      \<noteq> fst (get ''00000000-0000-0000-0000-000000000000'' None
        (snd (call store [DInt 0] [] (snd (Cache_init world0)))))"
proof -
  let ?w = "snd (call store [DInt 0] [] (snd (Cache_init world0)))"
  have b: "bind_data [DInt 0] [] = Some (DInt 0)" by (simp add: bind_data_def)
  have e: "show_int 0 = ''0''" by code_simp
  have p: "py_int_text ''0'' = Inr (PInt 0)" by code_simp
  have u: "utf8_valid ''0''" by code_simp
  note r = store_returns [OF flushed_obs(1) flushed_obs(2) flushed_obs(2) b, of world0]
  have d: "db ?w ''00000000-0000-0000-0000-000000000000'' = Some (RString ''0'')"
    by (simp add: r flushed uuid_str_0 e)
  have f: "fst (call store [DInt 0] [] (snd (Cache_init world0)))
        = Inr (PStr ''00000000-0000-0000-0000-000000000000'')"
    by (simp add: r flushed uuid_str_0)
  show ?thesis
    by (simp add: get_str_def get_int_def do_bind_def do_lift_def get_present [OF d] p u f)
qed

text \<open>
  C5, amended. For a stored empty string or empty bytes, \<^verbatim>\<open>get_str\<close> and \<^verbatim>\<open>get_int\<close>
  return the raw value \<^verbatim>\<open>b''\<close> unconverted. A stored integer 0 is held as \<^verbatim>\<open>b'0'\<close>, and
  for it \<^verbatim>\<open>get_str\<close> returns the decoded text \<^verbatim>\<open>'0'\<close> and \<^verbatim>\<open>get_int\<close> the parsed
  integer 0.
\<close>

theorem falsy_passthrough:
  assumes "store_ready w"
  shows
    "(v = DStr [] \<or> v = DBytes [] \<longrightarrow>
        fst (get (uuid_str (uuid_source w (uuid_drawn w))) None (snd (call store [v] [] w)))
          = Inr (PBytes [])
        \<and> fst (get_str (uuid_str (uuid_source w (uuid_drawn w))) (snd (call store [v] [] w)))
          = Inr (PBytes [])
        \<and> fst (get_int (uuid_str (uuid_source w (uuid_drawn w))) (snd (call store [v] [] w)))
          = Inr (PBytes []))
     \<and> (v = DInt 0 \<longrightarrow>
        fst (get (uuid_str (uuid_source w (uuid_drawn w))) None (snd (call store [v] [] w)))
          = Inr (PBytes ''0'')
        \<and> fst (get_str (uuid_str (uuid_source w (uuid_drawn w))) (snd (call store [v] [] w)))
          = Inr (PStr ''0'')
        \<and> fst (get_int (uuid_str (uuid_source w (uuid_drawn w))) (snd (call store [v] [] w)))
          = Inr (PInt 0))"
proof -
  from assms obtain n ins outs where
    c: "counter_of w ''Cache.store'' = Some n" and
    i: "list_of w ''Cache.store:inputs'' = Some ins" and
    out: "list_of w ''Cache.store:outputs'' = Some outs"
    by (rule store_ready_obs)
  let ?k = "uuid_str (uuid_source w (uuid_drawn w))"
  let ?w = "snd (call store [v] [] w)"
  have b: "bind_data [v] [] = Some v" by (simp add: bind_data_def)
  note r = store_returns [OF c i out b]
  have d: "db ?w ?k = Some (RString (encode v))"
    by (simp add: r uuid_str_not_name)
  have e: "show_int 0 = ''0''" by code_simp
  have p: "py_int_text ''0'' = Inr (PInt 0)" by code_simp
  have u: "utf8_valid ''0''" by code_simp
  have g: "get ?k None ?w = (Inr (PBytes (encode v)), issue (GET ?k) ?w)"
    using get_present [OF d, of None] by simp
  have gs: "fst (get_str ?k ?w)
      = (if encode v = [] then Inr (PBytes []) else py_decode (PBytes (encode v)))"
    by (simp add: get_str_def do_bind_def do_lift_def g do_return_def)
  have gi: "fst (get_int ?k ?w)
      = (if encode v = [] then Inr (PBytes []) else py_int (PBytes (encode v)))"
    by (simp add: get_int_def do_bind_def do_lift_def g do_return_def)
  show ?thesis
    using g gs gi by (auto simp: e p u)
qed

theorem falsy_passthrough_witness:
  "store_ready (snd (Cache_init world0))
   \<and> fst (get_str ''00000000-0000-0000-0000-000000000000''
        (snd (call store [DStr []] [] (snd (Cache_init world0))))) = Inr (PBytes [])
   \<and> fst (get_int ''00000000-0000-0000-0000-000000000000''
        (snd (call store [DStr []] [] (snd (Cache_init world0))))) = Inr (PBytes [])
   \<and> fst (get_str ''00000000-0000-0000-0000-000000000000''
        (snd (call store [DInt 0] [] (snd (Cache_init world0))))) = Inr (PStr ''0'')
   \<and> fst (get_int ''00000000-0000-0000-0000-000000000000''
        (snd (call store [DInt 0] [] (snd (Cache_init world0))))) = Inr (PInt 0)"
proof -
  have h: "store_ready (snd (Cache_init world0))" by (rule store_ready_flushed)
  show ?thesis
    using h falsy_passthrough [OF h, of "DStr []"] falsy_passthrough [OF h, of "DInt 0"]
    by (simp add: flushed uuid_str_0)
qed

text \<open>
  C6. For a key under which nothing is stored, \<^verbatim>\<open>get_str\<close> and \<^verbatim>\<open>get_int\<close> return \<^verbatim>\<open>None\<close>:
  they do not raise and do not return an empty text or a zero.
\<close>

theorem missing_key_passes_through:
  assumes "db w key = None"
  shows "get_str key w = (Inr PNone, issue (GET key) w)
    \<and> get_int key w = (Inr PNone, issue (GET key) w)"
  using assms by (simp add: get_str_def get_int_def do_bind_def do_lift_def get_absent do_return_def)

theorem missing_key_passes_through_witness:
  "db world0 ''never-stored'' = None
   \<and> get_str ''never-stored'' world0 = (Inr PNone, issue (GET ''never-stored'') world0)
   \<and> get_int ''never-stored'' world0 = (Inr PNone, issue (GET ''never-stored'') world0)"
proof -
  have h: "db world0 ''never-stored'' = None" by simp
  show ?thesis
    using h missing_key_passes_through [OF h] by simp
qed

text \<open>
  C7. \<^verbatim>\<open>get(key, fn)\<close> returns \<^verbatim>\<open>fn\<close> applied to the raw value read under the key, and
  \<^verbatim>\<open>get(key)\<close> returns the raw value itself: the stored bytes, or \<^verbatim>\<open>None\<close> for a key under
  which nothing is stored.
\<close>

theorem get_applies_converter:
  "(db w key = Some (RString b) \<longrightarrow>
      fst (get key (Some f) w) = f (PBytes b) \<and> fst (get key None w) = Inr (PBytes b))
   \<and> (db w key = None \<longrightarrow>
      fst (get key (Some f) w) = f PNone \<and> fst (get key None w) = Inr PNone)"
  by (simp add: get_present get_absent)

theorem get_applies_converter_witness:
  "db (snd (call store [DInt 42] [] (snd (Cache_init world0)))) ''00000000-0000-0000-0000-000000000000''
     = Some (RString ''42'')
   \<and> fst (get ''00000000-0000-0000-0000-000000000000'' (Some py_int)
         (snd (call store [DInt 42] [] (snd (Cache_init world0))))) = Inr (PInt 42)
   \<and> fst (get ''00000000-0000-0000-0000-000000000000'' None
         (snd (call store [DInt 42] [] (snd (Cache_init world0))))) = Inr (PBytes ''42'')
   \<and> db world0 ''never-stored'' = None
   \<and> fst (get ''never-stored'' (Some py_int) world0) = Inl TypeError
   \<and> fst (get ''never-stored'' None world0) = Inr PNone"
proof -
  let ?w = "snd (call store [DInt 42] [] (snd (Cache_init world0)))"
  have b: "bind_data [DInt 42] [] = Some (DInt 42)" by (simp add: bind_data_def)
  have e: "show_int 42 = ''42''" by code_simp
  have p: "py_int_text ''42'' = Inr (PInt 42)" by code_simp
  have h1: "db ?w ''00000000-0000-0000-0000-000000000000'' = Some (RString ''42'')"
    by (simp add: store_returns [OF flushed_obs(1) flushed_obs(2) flushed_obs(2) b] flushed uuid_str_0 e)
  have h2: "db world0 ''never-stored'' = None" by simp
  show ?thesis
    using h1 h2
      get_applies_converter [of ?w "''00000000-0000-0000-0000-000000000000''" "''42''" py_int]
      get_applies_converter [of world0 "''never-stored''" "[]" py_int]
    by (simp add: p)
qed

text \<open>
  C10. For a key under which nothing is stored, \<^verbatim>\<open>get(key, fn)\<close> is \<^verbatim>\<open>fn(None)\<close>: the
  converter is applied to the sentinel, so \<^verbatim>\<open>get(key, int)\<close> raises \<^verbatim>\<open>TypeError\<close> and a
  converter that decodes raises \<^verbatim>\<open>AttributeError\<close>.
\<close>

theorem converter_sees_missing_key:
  assumes "db w key = None"
  shows "get key (Some f) w = (f PNone, issue (GET key) w)
    \<and> fst (get key (Some py_int) w) = Inl TypeError
    \<and> fst (get key (Some py_decode) w) = Inl AttributeError"
  using assms by (simp add: get_absent)

theorem converter_sees_missing_key_witness:
  "db world0 ''never-stored'' = None
   \<and> get ''never-stored'' (Some (\<lambda>v. Inr (PStr (py_str v)))) world0
       = (Inr (PStr ''None''), issue (GET ''never-stored'') world0)
   \<and> fst (get ''never-stored'' (Some py_int) world0) = Inl TypeError
   \<and> fst (get ''never-stored'' (Some py_decode) world0) = Inl AttributeError"
proof -
  have h: "db world0 ''never-stored'' = None" by simp
  show ?thesis
    using h converter_sees_missing_key [OF h, of "\<lambda>v. Inr (PStr (py_str v))"] by simp
qed

text \<open>
  C8. A call of the decorated \<^verbatim>\<open>store\<close> sends its commands in this order: \<^verbatim>\<open>RPUSH\<close> of
  \<^verbatim>\<open>str(args)\<close> to the inputs list, \<^verbatim>\<open>INCR\<close> of the counter, the \<^verbatim>\<open>SET\<close> of the body, \<^verbatim>\<open>RPUSH\<close>
  of the returned key to the outputs list. When the body raises (here: the call does not
  bind \<^verbatim>\<open>data\<close>), the first two commands have been sent and nothing follows: the input
  stays recorded, the counter stays incremented, the outputs list is as it was. The same
  holds for any operation under the two decorators: when it raises from the world the two
  commands have made, the decorated call raises the same exception and leaves the world
  the operation left.
\<close>

theorem store_effects_in_order:
  assumes c: "counter_of w ''Cache.store'' = Some n"
    and i: "list_of w ''Cache.store:inputs'' = Some ins"
    and out: "list_of w ''Cache.store:outputs'' = Some outs"
  shows
    "(bind_data args kwargs = Some d \<longrightarrow>
        fst (call store args kwargs w) = Inr (PStr (uuid_str (uuid_source w (uuid_drawn w))))
        \<and> log (snd (call store args kwargs w)) = log w @
             [RPUSH ''Cache.store:inputs'' (py_str_tuple (unicode_printable w) args),
              INCR ''Cache.store'',
              SET (uuid_str (uuid_source w (uuid_drawn w))) (encode d),
              RPUSH ''Cache.store:outputs'' (uuid_str (uuid_source w (uuid_drawn w)))])
     \<and> (bind_data args kwargs = None \<longrightarrow>
        fst (call store args kwargs w) = Inl TypeError
        \<and> log (snd (call store args kwargs w)) = log w @
             [RPUSH ''Cache.store:inputs'' (py_str_tuple (unicode_printable w) args), INCR ''Cache.store'']
        \<and> counter_of (snd (call store args kwargs w)) ''Cache.store'' = Some (n + 1)
        \<and> list_of (snd (call store args kwargs w)) ''Cache.store:inputs''
             = Some (ins @ [py_str_tuple (unicode_printable w) args])
        \<and> list_of (snd (call store args kwargs w)) ''Cache.store:outputs'' = Some outs)
     \<and> (qualname m = ''Cache.store''
          \<and> call m args kwargs
               (w\<lparr>db := (db w)(''Cache.store:inputs'' \<mapsto> RList (ins @ [py_str_tuple (unicode_printable w) args]),
                              ''Cache.store'' \<mapsto> RString (show_int (n + 1))),
                  log := log w @
                    [RPUSH ''Cache.store:inputs'' (py_str_tuple (unicode_printable w) args), INCR ''Cache.store'']\<rparr>)
              = (Inl e, w3) \<longrightarrow>
        call (call_history (count_calls m)) args kwargs w = (Inl e, w3))"
proof -
  have ok: "fst (call store args kwargs w) = Inr (PStr (uuid_str (uuid_source w (uuid_drawn w))))
        \<and> log (snd (call store args kwargs w)) = log w @
             [RPUSH ''Cache.store:inputs'' (py_str_tuple (unicode_printable w) args),
              INCR ''Cache.store'',
              SET (uuid_str (uuid_source w (uuid_drawn w))) (encode d),
              RPUSH ''Cache.store:outputs'' (uuid_str (uuid_source w (uuid_drawn w)))]"
    if b: "bind_data args kwargs = Some d"
    by (simp add: store_returns [OF c i out b])
  have bad: "fst (call store args kwargs w) = Inl TypeError
        \<and> log (snd (call store args kwargs w)) = log w @
             [RPUSH ''Cache.store:inputs'' (py_str_tuple (unicode_printable w) args), INCR ''Cache.store'']
        \<and> counter_of (snd (call store args kwargs w)) ''Cache.store'' = Some (n + 1)
        \<and> list_of (snd (call store args kwargs w)) ''Cache.store:inputs''
             = Some (ins @ [py_str_tuple (unicode_printable w) args])
        \<and> list_of (snd (call store args kwargs w)) ''Cache.store:outputs'' = Some outs"
    if b: "bind_data args kwargs = None"
    using out
    by (simp add: store_raises [OF c i b] counter_of_def list_of_def parse_ll_show_int)
  have any: "call (call_history (count_calls m)) args kwargs w = (Inl e, w3)"
    if q: "qualname m = ''Cache.store''"
      and f: "call m args kwargs
               (w\<lparr>db := (db w)(''Cache.store:inputs'' \<mapsto> RList (ins @ [py_str_tuple (unicode_printable w) args]),
                              ''Cache.store'' \<mapsto> RString (show_int (n + 1))),
                  log := log w @
                    [RPUSH ''Cache.store:inputs'' (py_str_tuple (unicode_printable w) args), INCR ''Cache.store'']\<rparr>)
              = (Inl e, w3)"
  proof -
    have c': "counter_of w (qualname m) = Some n" using c by (simp add: q)
    have i': "list_of w (qualname m @ '':inputs'') = Some ins" using i by (simp add: q)
    have W: "(issue (INCR ''Cache.store'') (issue (RPUSH ''Cache.store:inputs'' (py_str_tuple (unicode_printable w) args)) w))
          \<lparr>db := (db w)(''Cache.store:inputs'' \<mapsto> RList (ins @ [py_str_tuple (unicode_printable w) args]),
                         ''Cache.store'' \<mapsto> RString (show_int (n + 1)))\<rparr>
        = w\<lparr>db := (db w)(''Cache.store:inputs'' \<mapsto> RList (ins @ [py_str_tuple (unicode_printable w) args]),
                              ''Cache.store'' \<mapsto> RString (show_int (n + 1))),
            log := log w @
              [RPUSH ''Cache.store:inputs'' (py_str_tuple (unicode_printable w) args), INCR ''Cache.store'']\<rparr>"
      by (simp add: issue_def)
    note dc = decorated_call [OF c' i', of args kwargs, unfolded q append.simps W]
    show ?thesis
      by (simp only: dc f prod.case sum.case)
  qed
  show ?thesis
    using ok bad any by blast
qed

theorem store_effects_in_order_witness:
  "counter_of (snd (Cache_init world0)) ''Cache.store'' = Some 0
   \<and> list_of (snd (Cache_init world0)) ''Cache.store:inputs'' = Some []
   \<and> list_of (snd (Cache_init world0)) ''Cache.store:outputs'' = Some []
   \<and> bind_data [DStr ''a''] [] = Some (DStr ''a'')
   \<and> log (snd (call store [DStr ''a''] [] (snd (Cache_init world0)))) =
        [FLUSHDB,
         RPUSH ''Cache.store:inputs'' (''('' @ [CHR 0x27] @ ''a'' @ [CHR 0x27] @ '',)''),
         INCR ''Cache.store'',
         SET ''00000000-0000-0000-0000-000000000000'' ''a'',
         RPUSH ''Cache.store:outputs'' ''00000000-0000-0000-0000-000000000000'']
   \<and> bind_data [] [] = None
   \<and> fst (call store [] [] (snd (Cache_init world0))) = Inl TypeError
   \<and> log (snd (call store [] [] (snd (Cache_init world0)))) =
        [FLUSHDB, RPUSH ''Cache.store:inputs'' ''()'', INCR ''Cache.store'']
   \<and> counter_of (snd (call store [] [] (snd (Cache_init world0)))) ''Cache.store'' = Some 1
   \<and> list_of (snd (call store [] [] (snd (Cache_init world0)))) ''Cache.store:outputs'' = Some []
   \<and> fst (call (call_history (count_calls always_raises)) [DStr ''a''] [] (snd (Cache_init world0)))
       = Inl ValueError
   \<and> counter_of (snd (call (call_history (count_calls always_raises)) [DStr ''a''] []
         (snd (Cache_init world0)))) ''Cache.store'' = Some 1"
proof -
  let ?w = "snd (Cache_init world0)"
  let ?w2 = "?w\<lparr>db := (db ?w)(''Cache.store:inputs'' \<mapsto> RList ([] @ [py_str_tuple (unicode_printable ?w) [DStr ''a'']]),
                              ''Cache.store'' \<mapsto> RString (show_int (0 + 1))),
                  log := log ?w @
                    [RPUSH ''Cache.store:inputs'' (py_str_tuple (unicode_printable ?w) [DStr ''a'']), INCR ''Cache.store'']\<rparr>"
  have c: "counter_of ?w ''Cache.store'' = Some 0"
    and i: "list_of ?w ''Cache.store:inputs'' = Some []"
    and out: "list_of ?w ''Cache.store:outputs'' = Some []"
    by (simp_all add: flushed_obs)
  have b1: "bind_data [DStr ''a''] [] = Some (DStr ''a'')"
    and b2: "bind_data [] [] = None"
    by (simp_all add: bind_data_def)
  have s1: "show_int 1 = ''1''" by code_simp
  have q: "qualname always_raises = ''Cache.store''"
    and f: "call always_raises [DStr ''a''] [] ?w2 = (Inl ValueError, ?w2)"
    by (simp_all add: always_raises_def do_raise_def)
  note a = store_effects_in_order [OF c i out, of "[DStr ''a'']" "[]" "DStr ''a''" always_raises ValueError ?w2]
  note z = store_effects_in_order [OF c i out, of "[]" "[]" "DStr ''a''" always_raises ValueError ?w2]
  have p1: "parse_ll ''1'' = Some 1" by code_simp
  from a b1 q f have r1: "log (snd (call store [DStr ''a''] [] ?w)) = log ?w @
             [RPUSH ''Cache.store:inputs'' (py_str_tuple (unicode_printable ?w) [DStr ''a'']),
              INCR ''Cache.store'',
              SET (uuid_str (uuid_source ?w (uuid_drawn ?w))) (encode (DStr ''a'')),
              RPUSH ''Cache.store:outputs'' (uuid_str (uuid_source ?w (uuid_drawn ?w)))]"
    and r3: "call (call_history (count_calls always_raises)) [DStr ''a''] [] ?w = (Inl ValueError, ?w2)"
    by blast+
  from z b2 have r2: "fst (call store [] [] ?w) = Inl TypeError"
    "log (snd (call store [] [] ?w)) = log ?w @
             [RPUSH ''Cache.store:inputs'' (py_str_tuple (unicode_printable ?w) []), INCR ''Cache.store'']"
    "counter_of (snd (call store [] [] ?w)) ''Cache.store'' = Some (0 + 1)"
    "list_of (snd (call store [] [] ?w)) ''Cache.store:outputs'' = Some []"
    by blast+
  have r1': "log (snd (call store [DStr ''a''] [] ?w)) =
        [FLUSHDB,
         RPUSH ''Cache.store:inputs'' (''('' @ [CHR 0x27] @ ''a'' @ [CHR 0x27] @ '',)''),
         INCR ''Cache.store'',
         SET ''00000000-0000-0000-0000-000000000000'' ''a'',
         RPUSH ''Cache.store:outputs'' ''00000000-0000-0000-0000-000000000000'']"
    by (simp add: r1 flushed py_str_tuple_examples uuid_str_0)
  have r2': "log (snd (call store [] [] ?w)) =
        [FLUSHDB, RPUSH ''Cache.store:inputs'' ''()'', INCR ''Cache.store'']"
    "counter_of (snd (call store [] [] ?w)) ''Cache.store'' = Some 1"
    using r2(2,3) by (simp_all add: flushed py_str_tuple_examples)
  have r3': "fst (call (call_history (count_calls always_raises)) [DStr ''a''] [] ?w) = Inl ValueError"
    "counter_of (snd (call (call_history (count_calls always_raises)) [DStr ''a''] [] ?w)) ''Cache.store'' = Some 1"
    by (simp_all add: r3 counter_of_def s1 p1)
  show ?thesis
    using c i out b1 b2 r1' r2(1) r2' r2(4) r3' by blast
qed




end
